theory Spec2Isabelle
  imports Complex_Main "HOL-Library.Sublist"
begin

section \<open>Values: numpy floats, arrays, the manifest\<close>

text \<open>
  The elements of a numpy float array. Every finite float32/float64 value is a rational;
  the three non-finite values are kept apart. The sign of zero is not represented: no
  function of \<^verbatim>\<open>sample.py\<close> looks at it.
\<close>

datatype npfloat = Fin rat | PosInf | NegInf | NaN

text \<open>\<^verbatim>\<open>np.isfinite\<close> on one element.\<close>

fun isfinite :: "npfloat \<Rightarrow> bool" where
  "isfinite (Fin _) = True"
| "isfinite PosInf = False"
| "isfinite NegInf = False"
| "isfinite NaN = False"

text \<open>
  An array as \<^verbatim>\<open>np.loadtxt\<close> may return it (0, 1 or 2 dimensions) and as
  \<^verbatim>\<open>reshape\<close>/\<^verbatim>\<open>concatenate\<close> build it (2 dimensions, row-major).
  \<^verbatim>\<open>.tolist()\<close> keeps shape and values, so a frame stores the array itself.
\<close>

datatype ndarray = Arr0 npfloat | Arr1 "npfloat list" | Arr2 "npfloat list list"

text \<open>\<^verbatim>\<open>np.all(np.isfinite(a))\<close>.\<close>

fun all_isfinite :: "ndarray \<Rightarrow> bool" where
  "all_isfinite (Arr0 x) = isfinite x"
| "all_isfinite (Arr1 xs) = list_all isfinite xs"
| "all_isfinite (Arr2 rows) = list_all (list_all isfinite) rows"

text \<open>The dictionaries \<^verbatim>\<open>frame\<close> and \<^verbatim>\<open>data\<close>; the fields are the keys.\<close>

record frame =
  f_file_name_image :: string
  f_intrinsics :: ndarray
  f_pose :: ndarray

record manifest =
  d_dataset :: string
  d_path :: string
  d_scene :: string
  d_frames :: "frame list"

datatype error =
    FileNotFoundError string
  | OSError string
  | ValueError
  | IndexError
  | KeyError string
  | NameError

section \<open>The environment\<close>

text \<open>
  What the two functions read, and the library functions whose results depend on
  floating-point text conversion:
  \<^item> \<open>fs_files\<close>: the text of each readable file (absent: the file is missing);
  \<^item> \<open>fs_dirs\<close>: the entries \<^verbatim>\<open>os.listdir\<close> returns, in its order;
  \<^item> \<open>loadtxt_parse\<close>: the array \<^verbatim>\<open>np.loadtxt\<close> builds from a file's text
    (\<open>None\<close>: it raises);
  \<^item> \<open>np_float32\<close>: the conversion of one string by \<^verbatim>\<open>np.array(words, np.float32)\<close>
    (\<open>None\<close>: it raises);
  \<^item> \<open>can_makedirs\<close>, \<open>can_open_w\<close>: whether \<^verbatim>\<open>os.makedirs(d, exist_ok=True)\<close>
    and \<^verbatim>\<open>open(p, 'w')\<close> succeed.
\<close>

record env =
  fs_files :: "string \<rightharpoonup> string"
  fs_dirs :: "string \<rightharpoonup> string list"
  loadtxt_parse :: "string \<Rightarrow> ndarray option"
  np_float32 :: "string \<Rightarrow> npfloat option"
  can_makedirs :: "string \<Rightarrow> bool"
  can_open_w :: "string \<Rightarrow> bool"

text \<open>
  What the functions change: the lines printed, and the \<^verbatim>\<open>data\<close> dictionary that
  \<^verbatim>\<open>json.dump\<close> serialised into each file written.
\<close>

record world =
  stdout :: "string list"
  written :: "string \<rightharpoonup> manifest"

definition print :: "string \<Rightarrow> world \<Rightarrow> world" where
  "print s w = w\<lparr>stdout := stdout w @ [s]\<rparr>"

section \<open>Library functions\<close>

subsection \<open>\<^verbatim>\<open>os.path.join\<close>, \<^verbatim>\<open>os.path.splitext\<close> (posixpath)\<close>

definition join_step :: "string \<Rightarrow> string \<Rightarrow> string" where
  "join_step p b =
     (if b \<noteq> [] \<and> hd b = CHR ''/'' then b
      else if p = [] \<or> last p = CHR ''/'' then p @ b
      else p @ ''/'' @ b)"

definition os_path_join :: "string \<Rightarrow> string list \<Rightarrow> string" where
  "os_path_join a ps = foldl join_step a ps"

text \<open>\<^verbatim>\<open>str.rfind\<close> of one character: the last index, or \<open>-1\<close>.\<close>

fun rfind :: "char \<Rightarrow> string \<Rightarrow> int" where
  "rfind c [] = -1"
| "rfind c (x # xs) =
     (let r = rfind c xs in
      if r \<ge> 0 then r + 1 else if x = c then 0 else -1)"

text \<open>
  \<^verbatim>\<open>os.path.splitext(p)[0]\<close>: cut at the last dot, when that dot lies after the last
  separator and some character between the two is not a dot.
\<close>

definition splitext_root :: "string \<Rightarrow> string" where
  "splitext_root p =
     (let sepIndex = rfind CHR ''/'' p;
          dotIndex = rfind CHR ''.'' p
      in if dotIndex > sepIndex \<and>
            list_ex (\<lambda>c. c \<noteq> CHR ''.'')
              (take (nat (dotIndex - (sepIndex + 1))) (drop (nat (sepIndex + 1)) p))
         then take (nat dotIndex) p
         else p)"

subsection \<open>\<^verbatim>\<open>int(str)\<close>\<close>

text \<open>
  Base-10 conversion of an ASCII string, as CPython 3.11 does it: the whitespace of the
  C locale (tab to carriage return, and the space) is skipped on both sides, one sign is
  allowed, and single underscores may stand between digits; a numeral of more than
  \<open>max_str_digits\<close> digits (the interpreter's default limit, 4300) is refused.
  \<open>None\<close> is the \<^verbatim>\<open>ValueError\<close>. File names are taken to be ASCII; the
  characters 0x1C to 0x1F, which \<^verbatim>\<open>str.isspace\<close> accepts, are not skipped.
\<close>

definition is_c_space :: "char \<Rightarrow> bool" where
  "is_c_space c = (c \<in> set [CHR 0x09, CHR 0x0A, CHR 0x0B, CHR 0x0C, CHR 0x0D, CHR 0x20])"

definition max_str_digits :: nat where
  "max_str_digits = 4300"

definition is_digit :: "char \<Rightarrow> bool" where
  "is_digit c = (c \<in> set ''0123456789'')"

definition digit_val :: "char \<Rightarrow> nat" where
  "digit_val c = of_char c - 48"

fun dec_value :: "nat \<Rightarrow> string \<Rightarrow> nat option" where
  "dec_value acc [] = Some acc"
| "dec_value acc [c] = (if is_digit c then Some (10 * acc + digit_val c) else None)"
| "dec_value acc (c # d # cs) =
     (if is_digit c then dec_value (10 * acc + digit_val c) (d # cs)
      else if c = CHR ''_'' \<and> is_digit d then dec_value acc (d # cs)
      else None)"

definition py_int_digits :: "string \<Rightarrow> nat option" where
  "py_int_digits s =
     (if max_str_digits < length (filter is_digit s) then None
      else (case s of [] \<Rightarrow> None
            | c # cs \<Rightarrow> if is_digit c then dec_value (digit_val c) cs else None))"

definition strip_chars :: "(char \<Rightarrow> bool) \<Rightarrow> string \<Rightarrow> string" where
  "strip_chars P s = rev (dropWhile P (rev (dropWhile P s)))"

definition py_int :: "string \<Rightarrow> int option" where
  "py_int s =
     (case strip_chars is_c_space s of
        [] \<Rightarrow> None
      | c # cs \<Rightarrow>
          if c = CHR ''-'' then map_option (\<lambda>n. - int n) (py_int_digits cs)
          else if c = CHR ''+'' then map_option int (py_int_digits cs)
          else map_option int (py_int_digits (c # cs)))"

subsection \<open>\<^verbatim>\<open>'%d' % n\<close> and \<^verbatim>\<open>'%08d' % n\<close>\<close>

fun str_nat :: "nat \<Rightarrow> string" where
  "str_nat n =
     (if n < 10 then [''0123456789'' ! n]
      else str_nat (n div 10) @ [''0123456789'' ! (n mod 10)])"

declare str_nat.simps [simp del]

definition fmt_d :: "int \<Rightarrow> string" where
  "fmt_d n = (if n < 0 then ''-'' else []) @ str_nat (nat \<bar>n\<bar>)"

text \<open>Minimum width 8, zeros between the sign and the digits.\<close>

definition fmt_08d :: "int \<Rightarrow> string" where
  "fmt_08d n =
     (let sgn = (if n < 0 then ''-'' else []);
          ds = str_nat (nat \<bar>n\<bar>)
      in sgn @ replicate (8 - length sgn - length ds) CHR ''0'' @ ds)"

subsection \<open>\<^verbatim>\<open>readlines\<close>, \<^verbatim>\<open>str.strip('\n')\<close>, \<^verbatim>\<open>str.split(" ")\<close>\<close>

text \<open>
  The lines of a text, each keeping its newline. A file's text is taken as Python hands
  it over in text mode, every line ending already translated to the newline character.
\<close>

fun readlines :: "string \<Rightarrow> string list" where
  "readlines [] = []"
| "readlines (c # cs) =
     (if c = CHR 0x0A then [c] # readlines cs
      else (case readlines cs of [] \<Rightarrow> [[c]] | l # ls \<Rightarrow> (c # l) # ls))"

definition strip_nl :: "string \<Rightarrow> string" where
  "strip_nl s = strip_chars (\<lambda>c. c = CHR 0x0A) s"

text \<open>Splitting at every occurrence of the separator; empty fields are kept.\<close>

fun split_sep :: "char \<Rightarrow> string \<Rightarrow> string list" where
  "split_sep sep [] = [[]]"
| "split_sep sep (c # cs) =
     (if c = sep then [] # split_sep sep cs
      else (case split_sep sep cs of [] \<Rightarrow> [[c]] | w # ws \<Rightarrow> (c # w) # ws))"

text \<open>The slice \<^verbatim>\<open>xs[i:j]\<close> for \<open>0 \<le> i \<le> j\<close>.\<close>

definition slice :: "nat \<Rightarrow> nat \<Rightarrow> 'a list \<Rightarrow> 'a list" where
  "slice i j xs = take (j - i) (drop i xs)"

subsection \<open>numpy\<close>

text \<open>\<^verbatim>\<open>np.loadtxt(path)\<close>: the file must exist and its text must convert.\<close>

definition np_loadtxt :: "env \<Rightarrow> string \<Rightarrow> error + ndarray" where
  "np_loadtxt e p =
     (case fs_files e p of
        None \<Rightarrow> Inl (FileNotFoundError p)
      | Some text \<Rightarrow>
          (case loadtxt_parse e text of None \<Rightarrow> Inl ValueError | Some a \<Rightarrow> Inr a))"

definition os_listdir :: "env \<Rightarrow> string \<Rightarrow> error + string list" where
  "os_listdir e p =
     (case fs_dirs e p of None \<Rightarrow> Inl (FileNotFoundError p) | Some names \<Rightarrow> Inr names)"

fun chunks :: "nat \<Rightarrow> 'a list \<Rightarrow> 'a list list" where
  "chunks c [] = []"
| "chunks c (x # xs) =
     (if c = 0 then [] else take c (x # xs) # chunks c (drop c (x # xs)))"

text \<open>
  \<^verbatim>\<open>np.array(words, np.float32).reshape(r, c)\<close>: every string must convert, and
  there must be exactly \<open>r * c\<close> of them.
\<close>

definition np_array_reshape ::
  "env \<Rightarrow> string list \<Rightarrow> nat \<Rightarrow> nat \<Rightarrow> error + npfloat list list" where
  "np_array_reshape e ws r c =
     (case those (map (np_float32 e) ws) of
        None \<Rightarrow> Inl ValueError
      | Some xs \<Rightarrow> if length xs = r * c then Inr (chunks c xs) else Inl ValueError)"

section \<open>Writing the manifest\<close>

text \<open>
  The last two statements of both functions: \<^verbatim>\<open>os.makedirs\<close>, then
  \<^verbatim>\<open>json.dump(data, open(.../info.json, 'w'))\<close>.
\<close>

definition dump_info :: "env \<Rightarrow> string \<Rightarrow> string \<Rightarrow> manifest \<Rightarrow> world \<Rightarrow> (error + unit) \<times> world" where
  "dump_info e path_meta scene data w =
     (let d = os_path_join path_meta [scene];
          p = os_path_join path_meta [scene, ''info.json'']
      in if \<not> can_makedirs e d then (Inl (OSError d), w)
         else if \<not> can_open_w e p then (Inl (OSError p), w)
         else (Inr (), w\<lparr>written := (written w)(p \<mapsto> data)\<rparr>))"

section \<open>\<^verbatim>\<open>prepare_sample_scene\<close>\<close>

definition frame_msg :: "string \<Rightarrow> nat \<Rightarrow> nat \<Rightarrow> string" where
  "frame_msg scene i n =
     ''preparing '' @ scene @ '' frame '' @ fmt_d (int i) @ ''/'' @ fmt_d (int n)"

text \<open>
  The loop over \<^verbatim>\<open>enumerate(frame_ids)\<close>; \<open>acc\<close> is \<^verbatim>\<open>data['frames']\<close> so far and
  \<open>n\<close> is \<^verbatim>\<open>len(frame_ids)\<close>.
\<close>

fun sample_frames ::
  "env \<Rightarrow> string \<Rightarrow> string \<Rightarrow> int \<Rightarrow> ndarray \<Rightarrow> nat \<Rightarrow> (nat \<times> int) list \<Rightarrow>
   frame list \<Rightarrow> world \<Rightarrow> (error + frame list) \<times> world" where
  "sample_frames e scene path verbose intrinsics n [] acc w = (Inr acc, w)"
| "sample_frames e scene path verbose intrinsics n ((i, frame_id) # rest) acc w =
     (let w1 = (if verbose > 1 \<and> i mod 25 = 0 then print (frame_msg scene i n) w else w)
      in case np_loadtxt e (os_path_join path [scene, ''pose'', fmt_08d frame_id @ ''.txt'']) of
           Inl err \<Rightarrow> (Inl err, w1)
         | Inr pose \<Rightarrow>
             if \<not> all_isfinite pose
             then sample_frames e scene path verbose intrinsics n rest acc w1
             else sample_frames e scene path verbose intrinsics n rest
                    (acc @ [\<lparr>f_file_name_image =
                               os_path_join path [scene, ''color'', fmt_08d frame_id @ ''.jpg''],
                             f_intrinsics = intrinsics,
                             f_pose = pose\<rparr>]) w1)"

definition prepare_sample_scene ::
  "env \<Rightarrow> string \<Rightarrow> string \<Rightarrow> string \<Rightarrow> int \<Rightarrow> world \<Rightarrow> (error + unit) \<times> world" where
  "prepare_sample_scene e scene path path_meta verbose w0 =
     (let w1 = (if verbose > 0 then print (''preparing '' @ scene) w0 else w0)
      in case np_loadtxt e (os_path_join path [scene, ''intrinsics.txt'']) of
           Inl err \<Rightarrow> (Inl err, w1)
         | Inr intrinsics \<Rightarrow>
        (case os_listdir e (os_path_join path [scene, ''color'']) of
           Inl err \<Rightarrow> (Inl err, w1)
         | Inr names \<Rightarrow>
        (case those (map (\<lambda>f. py_int (splitext_root f)) names) of
           None \<Rightarrow> (Inl ValueError, w1)
         | Some ids \<Rightarrow>
        (let frame_ids = sort ids
         in case sample_frames e scene path verbose intrinsics (length frame_ids)
                   (enumerate 0 frame_ids) [] w1 of
              (Inl err, w2) \<Rightarrow> (Inl err, w2)
            | (Inr frames, w2) \<Rightarrow>
                dump_info e path_meta scene
                  \<lparr>d_dataset = ''sample'', d_path = path, d_scene = scene, d_frames = frames\<rparr>
                  w2))))"

section \<open>\<^verbatim>\<open>prepare_test_scene\<close>\<close>

text \<open>
  The body of the loop over the lines of \<^verbatim>\<open>pose.txt\<close>: the token
  \<^verbatim>\<open>words[0]\<close>, the intrinsics and the 4 by 4 matrix \<^verbatim>\<open>P\<close>. The bottom row is
  the integer array \<^verbatim>\<open>[0, 0, 0, 1]\<close>, converted by \<^verbatim>\<open>concatenate\<close>.
\<close>

definition pose_line :: "env \<Rightarrow> string \<Rightarrow> error + (string \<times> ndarray \<times> ndarray)" where
  "pose_line e line0 =
     (let line = strip_nl line0;
          words = split_sep CHR '' '' line
      in case np_array_reshape e (slice 1 10 words) 3 3 of
           Inl err \<Rightarrow> Inl err
         | Inr intrinsics \<Rightarrow>
        (case np_array_reshape e (slice 10 19 words) 3 3 of
           Inl err \<Rightarrow> Inl err
         | Inr R \<Rightarrow>
        (case np_array_reshape e (slice 19 22 words) 3 1 of
           Inl err \<Rightarrow> Inl err
         | Inr t \<Rightarrow>
        (let P = map2 (@) R t;
             P = P @ [[Fin 0, Fin 0, Fin 0, Fin 1]]
         in case words of
              [] \<Rightarrow> Inl IndexError
            | w0 # _ \<Rightarrow> Inr (w0, Arr2 intrinsics, Arr2 P)))))"

text \<open>
  The state of the first loop: the dictionary \<^verbatim>\<open>poses\<close>, the list
  \<^verbatim>\<open>frame_ids\<close>, and the variable \<^verbatim>\<open>intrinsics\<close> (unbound before the first line).
\<close>

type_synonym table = "(string \<rightharpoonup> ndarray) \<times> string list \<times> ndarray option"

fun read_pose_table :: "env \<Rightarrow> string list \<Rightarrow> table \<Rightarrow> error + table" where
  "read_pose_table e [] tb = Inr tb"
| "read_pose_table e (line # rest) (poses, frame_ids, intrinsics) =
     (case pose_line e line of
        Inl err \<Rightarrow> Inl err
      | Inr (w0, K, P) \<Rightarrow>
          read_pose_table e rest (poses(w0 \<mapsto> P), frame_ids @ [w0], Some K))"

fun test_frames ::
  "string \<Rightarrow> string \<Rightarrow> int \<Rightarrow> (string \<rightharpoonup> ndarray) \<Rightarrow> ndarray option \<Rightarrow> nat \<Rightarrow>
   (nat \<times> string) list \<Rightarrow> frame list \<Rightarrow> world \<Rightarrow> (error + frame list) \<times> world" where
  "test_frames scene path verbose poses intrinsics n [] acc w = (Inr acc, w)"
| "test_frames scene path verbose poses intrinsics n ((i, frame_id) # rest) acc w =
     (let w1 = (if verbose > 1 \<and> i mod 25 = 0 then print (frame_msg scene i n) w else w)
      in case poses frame_id of
           None \<Rightarrow> (Inl (KeyError frame_id), w1)
         | Some pose \<Rightarrow>
             if \<not> all_isfinite pose
             then test_frames scene path verbose poses intrinsics n rest acc w1
             else (case intrinsics of
                     None \<Rightarrow> (Inl NameError, w1)
                   | Some K \<Rightarrow>
                       test_frames scene path verbose poses intrinsics n rest
                         (acc @ [\<lparr>f_file_name_image =
                                    os_path_join path [scene, ''color'', frame_id],
                                  f_intrinsics = K,
                                  f_pose = pose\<rparr>]) w1))"

definition prepare_test_scene ::
  "env \<Rightarrow> string \<Rightarrow> string \<Rightarrow> string \<Rightarrow> int \<Rightarrow> world \<Rightarrow> (error + unit) \<times> world" where
  "prepare_test_scene e scene path path_meta verbose w0 =
     (let w1 = (if verbose > 0 then print (''preparing '' @ scene) w0 else w0)
      in case fs_files e (os_path_join path [scene, ''pose.txt'']) of
           None \<Rightarrow> (Inl (FileNotFoundError (os_path_join path [scene, ''pose.txt''])), w1)
         | Some text \<Rightarrow>
        (case read_pose_table e (readlines text) (Map.empty, [], None) of
           Inl err \<Rightarrow> (Inl err, w1)
         | Inr (poses, frame_ids, intrinsics) \<Rightarrow>
        (case test_frames scene path verbose poses intrinsics (length frame_ids)
                (enumerate 0 frame_ids) [] w1 of
           (Inl err, w2) \<Rightarrow> (Inl err, w2)
         | (Inr frames, w2) \<Rightarrow>
             dump_info e path_meta scene
               \<lparr>d_dataset = ''sample'', d_path = path, d_scene = scene, d_frames = frames\<rparr>
               w2)))"

section \<open>Notions used in the statements\<close>

text \<open>The paths the two functions build, named.\<close>

abbreviation intrinsics_file :: "string \<Rightarrow> string \<Rightarrow> string" where
  "intrinsics_file path scene \<equiv> os_path_join path [scene, ''intrinsics.txt'']"

abbreviation color_dir :: "string \<Rightarrow> string \<Rightarrow> string" where
  "color_dir path scene \<equiv> os_path_join path [scene, ''color'']"

abbreviation color_file :: "string \<Rightarrow> string \<Rightarrow> string \<Rightarrow> string" where
  "color_file path scene name \<equiv> os_path_join path [scene, ''color'', name]"

abbreviation pose_file :: "string \<Rightarrow> string \<Rightarrow> int \<Rightarrow> string" where
  "pose_file path scene frame_id \<equiv> os_path_join path [scene, ''pose'', fmt_08d frame_id @ ''.txt'']"

abbreviation pose_file_B :: "string \<Rightarrow> string \<Rightarrow> string" where
  "pose_file_B path scene \<equiv> os_path_join path [scene, ''pose.txt'']"

abbreviation info_file :: "string \<Rightarrow> string \<Rightarrow> string" where
  "info_file path_meta scene \<equiv> os_path_join path_meta [scene, ''info.json'']"

text \<open>The frame identifier of an entry of \<^verbatim>\<open>color/\<close>.\<close>

abbreviation frame_id_of :: "string \<Rightarrow> int option" where
  "frame_id_of name \<equiv> py_int (splitext_root name)"


text \<open>The dictionary \<^verbatim>\<open>data\<close> with the given frames.\<close>

abbreviation sample_data :: "string \<Rightarrow> string \<Rightarrow> frame list \<Rightarrow> manifest" where
  "sample_data path scene frs \<equiv>
     \<lparr>d_dataset = ''sample'', d_path = path, d_scene = scene, d_frames = frs\<rparr>"

text \<open>The first loop of \<^verbatim>\<open>prepare_test_scene\<close>, from its initial state.\<close>

abbreviation test_table :: "env \<Rightarrow> string \<Rightarrow> error + table" where
  "test_table e body \<equiv> read_pose_table e (readlines body) (Map.empty, [], None)"

text \<open>Variant A: the pose file of an identifier loads and every element is finite.\<close>

definition has_finite_pose :: "env \<Rightarrow> string \<Rightarrow> string \<Rightarrow> int \<Rightarrow> bool" where
  "has_finite_pose e scene path frame_id =
     (case np_loadtxt e (pose_file path scene frame_id) of
        Inl _ \<Rightarrow> False | Inr pose \<Rightarrow> all_isfinite pose)"

text \<open>Variant A: \<open>fr\<close> is the record of the identifier \<open>frame_id\<close>.\<close>

definition sample_frame_ok :: "env \<Rightarrow> string \<Rightarrow> string \<Rightarrow> ndarray \<Rightarrow> int \<Rightarrow> frame \<Rightarrow> bool" where
  "sample_frame_ok e scene path intrinsics frame_id fr =
     (np_loadtxt e (pose_file path scene frame_id) = Inr (f_pose fr) \<and>
      all_isfinite (f_pose fr) \<and>
      f_file_name_image fr = color_file path scene (fmt_08d frame_id @ ''.jpg'') \<and>
      f_intrinsics fr = intrinsics)"

text \<open>
  Variant B: a parsed line of \<^verbatim>\<open>pose.txt\<close> is a token, its intrinsics and its pose.
  \<open>token_pose\<close> is the pose of the last line that bears the token, \<open>last_intrinsics\<close>
  the intrinsics of the last line of all.
\<close>

type_synonym entry = "string \<times> ndarray \<times> ndarray"

definition token_pose :: "entry list \<Rightarrow> string \<Rightarrow> ndarray option" where
  "token_pose entries tok =
     (case filter (\<lambda>en. fst en = tok) entries of
        [] \<Rightarrow> None
      | x # xs \<Rightarrow> Some (snd (snd (last (x # xs)))))"

definition last_intrinsics :: "entry list \<Rightarrow> ndarray option" where
  "last_intrinsics entries =
     (case entries of [] \<Rightarrow> None | x # xs \<Rightarrow> Some (fst (snd (last (x # xs)))))"

definition has_finite_token_pose :: "entry list \<Rightarrow> string \<Rightarrow> bool" where
  "has_finite_token_pose entries tok =
     (case token_pose entries tok of None \<Rightarrow> False | Some pose \<Rightarrow> all_isfinite pose)"

definition test_frame_ok :: "string \<Rightarrow> string \<Rightarrow> entry list \<Rightarrow> string \<Rightarrow> frame \<Rightarrow> bool" where
  "test_frame_ok scene path entries tok fr =
     (token_pose entries tok = Some (f_pose fr) \<and>
      all_isfinite (f_pose fr) \<and>
      f_file_name_image fr = color_file path scene tok \<and>
      last_intrinsics entries = Some (f_intrinsics fr))"

text \<open>
  Following the specification's words, not the source: the \<^emph>\<open>whitespace tokens\<close> of a
  line are its maximal runs of characters that are not whitespace; whitespace is what
  \<^verbatim>\<open>str.isspace\<close> accepts among the ASCII characters.
\<close>

definition is_space :: "char \<Rightarrow> bool" where
  "is_space c = (c \<in> set [CHR 0x09, CHR 0x0A, CHR 0x0B, CHR 0x0C, CHR 0x0D,
                             CHR 0x1C, CHR 0x1D, CHR 0x1E, CHR 0x1F, CHR 0x20])"

fun split_when :: "(char \<Rightarrow> bool) \<Rightarrow> string \<Rightarrow> string list" where
  "split_when P [] = [[]]"
| "split_when P (c # cs) =
     (if P c then [] # split_when P cs
      else (case split_when P cs of [] \<Rightarrow> [[c]] | w # ws \<Rightarrow> (c # w) # ws))"

definition spec_whitespace_tokens :: "string \<Rightarrow> string list" where
  "spec_whitespace_tokens line = filter (\<lambda>w. w \<noteq> []) (split_when is_space line)"

text \<open>
  Following the specification's words, not the source: an identifier zero-padded to 8
  digits, and the image path \<^verbatim>\<open>scene/color/<id zero-padded to 8 digits>.jpg\<close> read as a
  path relative to the source root.
\<close>

definition spec_zero_pad8 :: "nat \<Rightarrow> string" where
  "spec_zero_pad8 n = replicate (8 - length (str_nat n)) CHR ''0'' @ str_nat n"

definition spec_image_path :: "string \<Rightarrow> nat \<Rightarrow> string" where
  "spec_image_path scene n = scene @ ''/color/'' @ spec_zero_pad8 n @ ''.jpg''"

text \<open>One step of reading a decimal numeral.\<close>

abbreviation dec_step :: "nat \<Rightarrow> char \<Rightarrow> nat" where
  "dec_step a c \<equiv> 10 * a + digit_val c"

section \<open>An example tree\<close>

definition I3 :: "npfloat list list" where
  "I3 = [[Fin 1, Fin 0, Fin 0], [Fin 0, Fin 1, Fin 0], [Fin 0, Fin 0, Fin 1]]"

definition I4 :: "npfloat list list" where
  "I4 = [[Fin 1, Fin 0, Fin 0, Fin 0], [Fin 0, Fin 1, Fin 0, Fin 0],
         [Fin 0, Fin 0, Fin 1, Fin 0], [Fin 0, Fin 0, Fin 0, Fin 1]]"

text \<open>A translation by \<open>x\<close> along the first axis; \<open>shift NaN\<close> is not a finite pose.\<close>

definition shift :: "npfloat \<Rightarrow> npfloat list list" where
  "shift x = [[Fin 1, Fin 0, Fin 0, x], [Fin 0, Fin 1, Fin 0, Fin 0],
              [Fin 0, Fin 0, Fin 1, Fin 0], [Fin 0, Fin 0, Fin 0, Fin 1]]"

definition K2 :: "npfloat list list" where
  "K2 = [[Fin 2, Fin 0, Fin 0], [Fin 0, Fin 2, Fin 0], [Fin 0, Fin 0, Fin 1]]"

text \<open>
  A source tree under \<^verbatim>\<open>data\<close> with six scenes:
  \<^item> \<^verbatim>\<open>s\<close> has both layouts: three colour files listed out of order, the pose of
    frame 1 holding a NaN; and a \<^verbatim>\<open>pose.txt\<close> whose token \<^verbatim>\<open>f1\<close> occurs twice;
  \<^item> \<^verbatim>\<open>n\<close> has both layouts with no finite pose;
  \<^item> \<^verbatim>\<open>lead\<close> has a \<^verbatim>\<open>pose.txt\<close> whose only line starts with a space;
  \<^item> \<^verbatim>\<open>bad\<close> has a \<^verbatim>\<open>pose.txt\<close> with a short line;
  \<^item> \<^verbatim>\<open>odd\<close> has an \<^verbatim>\<open>intrinsics.txt\<close> and one colour file whose name is the
    character 0x1C followed by \<^verbatim>\<open>5.jpg\<close>, which \<^verbatim>\<open>int\<close> does not read;
  \<^item> \<^verbatim>\<open>none\<close> has no file at all.
  The two conversions are given on the texts that occur.
\<close>

definition s_pose_txt :: string where
  "s_pose_txt =
     ''f1 1 0 0 0 1 0 0 0 1 1 0 0 0 1 0 0 0 1 0 0 0\<newline>'' @
     ''f2 1 0 0 0 1 0 0 0 1 1 0 0 0 1 0 0 0 1 nan 0 0\<newline>'' @
     ''f1 2 0 0 0 2 0 0 0 1 1 0 0 0 1 0 0 0 1 2 0 0\<newline>''"

definition n_pose_txt :: string where
  "n_pose_txt = ''f1 1 0 0 0 1 0 0 0 1 1 0 0 0 1 0 0 0 1 nan 0 0\<newline>''"

text \<open>A line that starts with a space: 21 numbers, no token before them.\<close>

definition lead_line :: string where
  "lead_line = '' 1 0 0 0 1 0 0 0 1 1 0 0 0 1 0 0 0 1 0 0 0\<newline>''"

definition example_env :: env where
  "example_env =
     \<lparr>fs_files = map_of
        [(''data/s/intrinsics.txt'', ''1 0 0\<newline>0 1 0\<newline>0 0 1\<newline>''),
         (''data/s/pose/00000000.txt'', ''1 0 0 0\<newline>0 1 0 0\<newline>0 0 1 0\<newline>0 0 0 1\<newline>''),
         (''data/s/pose/00000001.txt'', ''1 0 0 nan\<newline>0 1 0 0\<newline>0 0 1 0\<newline>0 0 0 1\<newline>''),
         (''data/s/pose/00000002.txt'', ''1 0 0 2\<newline>0 1 0 0\<newline>0 0 1 0\<newline>0 0 0 1\<newline>''),
         (''data/s/pose.txt'', s_pose_txt),
         (''data/n/intrinsics.txt'', ''1 0 0\<newline>0 1 0\<newline>0 0 1\<newline>''),
         (''data/n/pose/00000000.txt'', ''1 0 0 nan\<newline>0 1 0 0\<newline>0 0 1 0\<newline>0 0 0 1\<newline>''),
         (''data/n/pose.txt'', n_pose_txt),
         (''data/odd/intrinsics.txt'', ''1 0 0\<newline>0 1 0\<newline>0 0 1\<newline>''),
         (''data/lead/pose.txt'', lead_line),
         (''data/bad/pose.txt'', ''f1 1 0\<newline>'')],
      fs_dirs = map_of
        [(''data/s/color'', [''00000002.jpg'', ''00000000.jpg'', ''00000001.jpg'']),
         (''data/n/color'', [''00000000.jpg'']),
         (''data/odd/color'', [CHR 0x1C # ''5.jpg''])],
      loadtxt_parse = map_of
        [(''1 0 0\<newline>0 1 0\<newline>0 0 1\<newline>'', Arr2 I3),
         (''1 0 0 0\<newline>0 1 0 0\<newline>0 0 1 0\<newline>0 0 0 1\<newline>'', Arr2 I4),
         (''1 0 0 nan\<newline>0 1 0 0\<newline>0 0 1 0\<newline>0 0 0 1\<newline>'', Arr2 (shift NaN)),
         (''1 0 0 2\<newline>0 1 0 0\<newline>0 0 1 0\<newline>0 0 0 1\<newline>'', Arr2 (shift (Fin 2)))],
      np_float32 = map_of [(''0'', Fin 0), (''1'', Fin 1), (''2'', Fin 2), (''nan'', NaN)],
      can_makedirs = (\<lambda>_. True),
      can_open_w = (\<lambda>_. True)\<rparr>"

text \<open>Nothing printed, nothing written.\<close>

definition w0 :: world where
  "w0 = \<lparr>stdout = [], written = Map.empty\<rparr>"

text \<open>The lines of the example's \<^verbatim>\<open>pose.txt\<close> files, parsed.\<close>

definition s_entries :: "entry list" where
  "s_entries = [(''f1'', Arr2 I3, Arr2 I4), (''f2'', Arr2 I3, Arr2 (shift NaN)),
                (''f1'', Arr2 K2, Arr2 (shift (Fin 2)))]"

text \<open>The frames both functions emit for the scene \<^verbatim>\<open>s\<close>.\<close>

definition s_sample_frames :: "frame list" where
  "s_sample_frames =
     [\<lparr>f_file_name_image = ''data/s/color/00000000.jpg'', f_intrinsics = Arr2 I3,
        f_pose = Arr2 I4\<rparr>,
      \<lparr>f_file_name_image = ''data/s/color/00000002.jpg'', f_intrinsics = Arr2 I3,
        f_pose = Arr2 (shift (Fin 2))\<rparr>]"

definition s_test_frames :: "frame list" where
  "s_test_frames =
     [\<lparr>f_file_name_image = ''data/s/color/f1'', f_intrinsics = Arr2 K2,
        f_pose = Arr2 (shift (Fin 2))\<rparr>,
      \<lparr>f_file_name_image = ''data/s/color/f1'', f_intrinsics = Arr2 K2,
        f_pose = Arr2 (shift (Fin 2))\<rparr>]"

section \<open>The frame lists as filters\<close>

text \<open>
  Both functions build \<^verbatim>\<open>data['frames']\<close> in a loop that may stop with an error.
  The lemmas of this section show that a run that returns has visited every identifier,
  that its frames are those of the identifiers with a finite pose, in order, and that
  nothing is written before the last statement.
\<close>

subsection \<open>Lists in relation\<close>

lemma list_all2_weaken:
  "list_all2 P xs ys \<Longrightarrow> (\<And>x y. P x y \<Longrightarrow> Q x y) \<Longrightarrow> list_all2 Q xs ys"
  by (erule list_all2_mono)

lemma list_all2_right: "list_all2 P xs ys \<Longrightarrow> (\<And>x y. P x y \<Longrightarrow> Q y) \<Longrightarrow> list_all Q ys"
  by (induction rule: list_all2_induct) auto

lemma list_all2_map_eq:
  "list_all2 P xs ys \<Longrightarrow> (\<And>x y. P x y \<Longrightarrow> g y = f x) \<Longrightarrow> map g ys = map f xs"
  by (induction rule: list_all2_induct) auto

subsection \<open>The loop of \<^verbatim>\<open>prepare_sample_scene\<close>\<close>

lemma print_written [simp]: "written (print s w) = written w"
  by (simp add: print_def)

lemma print_stdout [simp]: "stdout (print s w) = stdout w @ [s]"
  by (simp add: print_def)

lemma sample_frames_written:
  "written (snd (sample_frames e scene path verbose intrinsics n xs acc w)) = written w"
  by (induction xs arbitrary: acc w) (auto simp: Let_def split: sum.splits)

lemma sample_frames_Inr:
  assumes "sample_frames e scene path verbose intrinsics n xs acc w = (Inr frs, w')"
  shows "\<exists>new. frs = acc @ new \<and>
           list_all2 (sample_frame_ok e scene path intrinsics)
             (filter (has_finite_pose e scene path) (map snd xs)) new"
  using assms
proof (induction xs arbitrary: acc w)
  case Nil
  then show ?case by simp
next
  case (Cons x xs)
  obtain i frame_id where x: "x = (i, frame_id)" by (cases x)
  show ?case
  proof (cases "np_loadtxt e (pose_file path scene frame_id)")
    case (Inl err)
    with Cons.prems x show ?thesis by (simp add: Let_def)
  next
    case (Inr pose)
    show ?thesis
    proof (cases "all_isfinite pose")
      case False
      with Cons.prems x Inr obtain w1 where
        "sample_frames e scene path verbose intrinsics n xs acc w1 = (Inr frs, w')"
        by (simp add: Let_def)
      then have "\<exists>new. frs = acc @ new \<and>
           list_all2 (sample_frame_ok e scene path intrinsics)
             (filter (has_finite_pose e scene path) (map snd xs)) new"
        by (rule Cons.IH)
      moreover have "\<not> has_finite_pose e scene path frame_id"
        using False Inr by (simp add: has_finite_pose_def)
      ultimately show ?thesis
        using x by simp
    next
      case True
      let ?fr = "\<lparr>f_file_name_image = color_file path scene (fmt_08d frame_id @ ''.jpg''),
                  f_intrinsics = intrinsics, f_pose = pose\<rparr>"
      from Cons.prems x Inr True obtain w1 where
        "sample_frames e scene path verbose intrinsics n xs (acc @ [?fr]) w1 = (Inr frs, w')"
        by (simp add: Let_def)
      from Cons.IH [OF this] obtain new where
        new: "frs = (acc @ [?fr]) @ new"
          "list_all2 (sample_frame_ok e scene path intrinsics)
             (filter (has_finite_pose e scene path) (map snd xs)) new"
        by blast
      have "sample_frame_ok e scene path intrinsics frame_id ?fr"
        using Inr True by (simp add: sample_frame_ok_def)
      moreover have "has_finite_pose e scene path frame_id"
        using True Inr by (simp add: has_finite_pose_def)
      ultimately show ?thesis
        using new x by (intro exI [of _ "?fr # new"]) simp
    qed
  qed
qed

lemma sample_frames_loads:
  assumes "sample_frames e scene path verbose intrinsics n xs acc w = (Inr frs, w')"
    and "(i, frame_id) \<in> set xs"
  shows "\<exists>pose. np_loadtxt e (pose_file path scene frame_id) = Inr pose"
  using assms
  by (induction xs arbitrary: acc w) (auto simp: Let_def split: sum.splits if_splits)

lemma sample_frames_total:
  assumes "\<forall>x \<in> set xs. \<exists>pose. np_loadtxt e (pose_file path scene (snd x)) = Inr pose"
  shows "\<exists>frs w'. sample_frames e scene path verbose intrinsics n xs acc w = (Inr frs, w')"
  using assms
  by (induction xs arbitrary: acc w) (auto simp: Let_def split: sum.splits)

lemma sample_frames_missing:
  assumes "x \<in> set xs" "np_loadtxt e (pose_file path scene (snd x)) = Inl err0"
  shows "\<exists>err w'. sample_frames e scene path verbose intrinsics n xs acc w = (Inl err, w')"
  using assms
  by (induction xs arbitrary: acc w) (auto simp: Let_def split: sum.splits)


lemma dump_info_Inr:
  "dump_info e path_meta scene data w = (Inr u, w') \<Longrightarrow>
     w' = w\<lparr>written := (written w)(info_file path_meta scene \<mapsto> data)\<rparr> \<and>
     can_makedirs e (os_path_join path_meta [scene]) \<and> can_open_w e (info_file path_meta scene)"
  by (auto simp: dump_info_def Let_def split: if_splits)

lemma dump_info_Inl:
  "dump_info e path_meta scene data w = (Inl err, w') \<Longrightarrow> w' = w"
  by (auto simp: dump_info_def Let_def split: if_splits)

lemma dump_info_ok:
  "can_makedirs e (os_path_join path_meta [scene]) \<Longrightarrow> can_open_w e (info_file path_meta scene) \<Longrightarrow>
   dump_info e path_meta scene data w =
     (Inr (), w\<lparr>written := (written w)(info_file path_meta scene \<mapsto> data)\<rparr>)"
  by (simp add: dump_info_def Let_def)



lemma prepare_sample_scene_Inr:
  assumes "prepare_sample_scene e scene path path_meta verbose w = (Inr u, w')"
  shows "\<exists>intrinsics names ids frs.
           np_loadtxt e (intrinsics_file path scene) = Inr intrinsics \<and>
           fs_dirs e (color_dir path scene) = Some names \<and>
           those (map frame_id_of names) = Some ids \<and>
           (\<forall>frame_id \<in> set ids. \<exists>pose. np_loadtxt e (pose_file path scene frame_id) = Inr pose) \<and>
           list_all2 (sample_frame_ok e scene path intrinsics)
             (filter (has_finite_pose e scene path) (sort ids)) frs \<and>
           written w' = (written w)(info_file path_meta scene \<mapsto> sample_data path scene frs)"
proof -
  define w1 where "w1 = (if verbose > 0 then print (''preparing '' @ scene) w else w)"
  have ww1: "written w1 = written w" by (simp add: w1_def)
  from assms obtain intrinsics where
    intr: "np_loadtxt e (intrinsics_file path scene) = Inr intrinsics"
    by (auto simp: prepare_sample_scene_def Let_def split: sum.splits)
  from assms intr obtain names where
    names: "fs_dirs e (color_dir path scene) = Some names"
    by (auto simp: prepare_sample_scene_def Let_def os_listdir_def split: sum.splits option.splits)
  from assms intr names obtain ids where
    ids: "those (map frame_id_of names) = Some ids"
    by (auto simp: prepare_sample_scene_def Let_def os_listdir_def split: sum.splits option.splits)
  from assms intr names ids obtain frs w2 where
    loop: "sample_frames e scene path verbose intrinsics (length (sort ids))
             (enumerate 0 (sort ids)) [] w1 = (Inr frs, w2)"
    and dump: "dump_info e path_meta scene (sample_data path scene frs) w2 = (Inr u, w')"
    by (auto simp: prepare_sample_scene_def Let_def os_listdir_def w1_def
             split: sum.splits option.splits prod.splits)
  from sample_frames_Inr [OF loop] have
    frs: "list_all2 (sample_frame_ok e scene path intrinsics)
            (filter (has_finite_pose e scene path) (sort ids)) frs"
    by (simp add: map_snd_enumerate)
  have loads: "\<forall>frame_id \<in> set ids. \<exists>pose. np_loadtxt e (pose_file path scene frame_id) = Inr pose"
  proof
    fix frame_id assume "frame_id \<in> set ids"
    then have "frame_id \<in> snd ` set (enumerate 0 (sort ids))"
      by (metis list.set_map map_snd_enumerate set_sort)
    then obtain i where "(i, frame_id) \<in> set (enumerate 0 (sort ids))" by force
    from sample_frames_loads [OF loop this]
    show "\<exists>pose. np_loadtxt e (pose_file path scene frame_id) = Inr pose" .
  qed
  have "written w2 = written w1"
    using sample_frames_written [of e scene path verbose intrinsics "length (sort ids)"
        "enumerate 0 (sort ids)" "[]" w1] loop by simp
  with dump_info_Inr [OF dump] ww1 have
    "written w' = (written w)(info_file path_meta scene \<mapsto> sample_data path scene frs)"
    by simp
  with intr names ids frs loads show ?thesis by blast
qed


lemma those_map_Some_iff:
  "(\<exists>ys. those (map f xs) = Some ys) \<longleftrightarrow> (\<forall>x \<in> set xs. f x \<noteq> None)"
  by (induction xs) (auto split: option.splits)

lemma those_map_length: "those (map f xs) = Some ys \<Longrightarrow> length ys = length xs"
  by (induction xs arbitrary: ys) (auto split: option.splits)

lemma those_map_Some: "those (map f xs) = Some ys \<Longrightarrow> map f xs = map Some ys"
  by (induction xs arbitrary: ys) (auto split: option.splits)

lemma prepare_sample_scene_total:
  assumes intr: "np_loadtxt e (intrinsics_file path scene) = Inr intrinsics"
    and names: "fs_dirs e (color_dir path scene) = Some names"
    and ids: "those (map frame_id_of names) = Some ids"
    and loads: "\<forall>frame_id \<in> set ids. \<exists>pose. np_loadtxt e (pose_file path scene frame_id) = Inr pose"
    and mk: "can_makedirs e (os_path_join path_meta [scene])"
    and op: "can_open_w e (info_file path_meta scene)"
  shows "\<exists>w'. prepare_sample_scene e scene path path_meta verbose w = (Inr (), w')"
proof -
  define w1 where "w1 = (if verbose > 0 then print (''preparing '' @ scene) w else w)"
  have "\<forall>x \<in> set (enumerate 0 (sort ids)).
          \<exists>pose. np_loadtxt e (pose_file path scene (snd x)) = Inr pose"
  proof
    fix x assume "x \<in> set (enumerate 0 (sort ids))"
    then have "snd x \<in> snd ` set (enumerate 0 (sort ids))" by (rule imageI)
    then have "snd x \<in> set ids" by (metis list.set_map map_snd_enumerate set_sort)
    with loads show "\<exists>pose. np_loadtxt e (pose_file path scene (snd x)) = Inr pose" by blast
  qed
  from sample_frames_total [OF this] obtain frs w2 where
    "sample_frames e scene path verbose intrinsics (length (sort ids))
       (enumerate 0 (sort ids)) [] w1 = (Inr frs, w2)"
    by blast
  with intr names ids dump_info_ok [OF mk op] show ?thesis
    by (simp add: prepare_sample_scene_def Let_def os_listdir_def w1_def)
qed

lemma token_pose_Nil [simp]: "token_pose [] tok = None"
  by (simp add: token_pose_def)

lemma token_pose_Cons:
  "token_pose (en # ens) tok =
     (case token_pose ens tok of
        Some P \<Rightarrow> Some P
      | None \<Rightarrow> if fst en = tok then Some (snd (snd en)) else None)"
  by (simp add: token_pose_def split: list.splits)

lemma last_intrinsics_Nil [simp]: "last_intrinsics [] = None"
  by (simp add: last_intrinsics_def)

lemma last_intrinsics_Cons:
  "last_intrinsics (en # ens) =
     (case last_intrinsics ens of Some K \<Rightarrow> Some K | None \<Rightarrow> Some (fst (snd en)))"
  by (simp add: last_intrinsics_def split: list.splits)

lemma token_pose_mem:
  "tok \<in> fst ` set entries \<Longrightarrow> \<exists>P. token_pose entries tok = Some P"
  by (induction entries) (force simp: token_pose_Cons split: option.splits)+

lemma token_pose_in_set:
  "token_pose entries tok = Some P \<Longrightarrow> \<exists>K. (tok, K, P) \<in> set entries"
proof (induction entries)
  case Nil
  then show ?case by simp
next
  case (Cons en ens)
  then show ?case
    by (cases en) (auto simp: token_pose_Cons split: option.splits if_splits)
qed

lemma read_pose_table_Inr:
  assumes "read_pose_table e lines (poses0, ids0, K0) = Inr (poses, ids, K)"
  shows "\<exists>entries. map (pose_line e) lines = map Inr entries \<and>
           ids = ids0 @ map fst entries \<and>
           (\<forall>tok. poses tok = (case token_pose entries tok of None \<Rightarrow> poses0 tok | Some P \<Rightarrow> Some P)) \<and>
           K = (case last_intrinsics entries of None \<Rightarrow> K0 | Some k \<Rightarrow> Some k)"
  using assms
proof (induction lines arbitrary: poses0 ids0 K0)
  case Nil
  then show ?case by simp
next
  case (Cons line lines)
  from Cons.prems obtain w0 K1 P where
    pl: "pose_line e line = Inr (w0, K1, P)"
    and rest: "read_pose_table e lines (poses0(w0 \<mapsto> P), ids0 @ [w0], Some K1) = Inr (poses, ids, K)"
    by (auto split: sum.splits)
  from Cons.IH [OF rest] obtain entries where
    en: "map (pose_line e) lines = map Inr entries"
      "ids = (ids0 @ [w0]) @ map fst entries"
      "\<forall>tok. poses tok = (case token_pose entries tok of None \<Rightarrow> (poses0(w0 \<mapsto> P)) tok | Some P \<Rightarrow> Some P)"
      "K = (case last_intrinsics entries of None \<Rightarrow> Some K1 | Some k \<Rightarrow> Some k)"
    by blast
  show ?case
  proof (intro exI [of _ "(w0, K1, P) # entries"] conjI allI)
    show "map (pose_line e) (line # lines) = map Inr ((w0, K1, P) # entries)"
      using pl en(1) by simp
    show "ids = ids0 @ map fst ((w0, K1, P) # entries)"
      using en(2) by simp
    show "poses tok = (case token_pose ((w0, K1, P) # entries) tok of
                         None \<Rightarrow> poses0 tok | Some P \<Rightarrow> Some P)" for tok
      using en(3) by (auto simp: token_pose_Cons split: option.splits)
    show "K = (case last_intrinsics ((w0, K1, P) # entries) of None \<Rightarrow> K0 | Some k \<Rightarrow> Some k)"
      using en(4) by (simp add: last_intrinsics_Cons split: option.splits)
  qed
qed

lemma read_pose_table_total:
  assumes "map (pose_line e) lines = map Inr entries"
  shows "\<exists>tb'. read_pose_table e lines tb = Inr tb'"
  using assms
proof (induction lines arbitrary: entries tb)
  case Nil
  show ?case by (cases tb) auto
next
  case (Cons line lines)
  obtain poses0 ids0 K0 where tb: "tb = (poses0, ids0, K0)" by (cases tb)
  from Cons.prems obtain en ens where
    "entries = en # ens" "pose_line e line = Inr en" "map (pose_line e) lines = map Inr ens"
    by (cases entries) auto
  with Cons.IH tb show ?case by (cases en) simp
qed

lemma read_pose_table_fails:
  assumes "line \<in> set lines" "pose_line e line = Inl err0"
  shows "\<exists>err. read_pose_table e lines tb = Inl err"
  using assms
proof (induction lines arbitrary: tb)
  case Nil
  then show ?case by simp
next
  case (Cons l lines)
  obtain poses0 ids0 K0 where tb: "tb = (poses0, ids0, K0)" by (cases tb)
  show ?case
  proof (cases "pose_line e l")
    case (Inl a)
    with tb show ?thesis by simp
  next
    case (Inr en)
    with Cons.prems have "line \<in> set lines" by auto
    from Cons.IH [OF this Cons.prems(2)] Inr tb show ?thesis
      by (cases en) simp
  qed
qed

lemma split_sep_not_Nil [simp]: "split_sep sep s \<noteq> []"
  by (induction s) (auto split: list.splits)

lemma np_array_reshape_Inl:
  "np_array_reshape e ws r c = Inl err \<Longrightarrow> err = ValueError"
  by (auto simp: np_array_reshape_def split: option.splits if_splits)

lemma pose_line_Inl: "pose_line e line = Inl err \<Longrightarrow> err = ValueError"
  by (auto simp: pose_line_def Let_def split: sum.splits list.splits dest: np_array_reshape_Inl)

lemma read_pose_table_Inl:
  "read_pose_table e lines tb = Inl err \<Longrightarrow> err = ValueError"
proof (induction lines arbitrary: tb)
  case Nil
  then show ?case by simp
next
  case (Cons l lines)
  obtain poses0 ids0 K0 where tb: "tb = (poses0, ids0, K0)" by (cases tb)
  from Cons show ?case unfolding tb
    by (auto split: sum.splits dest: pose_line_Inl)
qed

lemma test_frames_written:
  "written (snd (test_frames scene path verbose poses K n xs acc w)) = written w"
  by (induction xs arbitrary: acc w) (auto simp: Let_def split: option.splits)

lemma test_frames_Inr:
  assumes "test_frames scene path verbose (token_pose entries) (last_intrinsics entries) n xs acc w
             = (Inr frs, w')"
  shows "\<exists>new. frs = acc @ new \<and>
           list_all2 (test_frame_ok scene path entries)
             (filter (has_finite_token_pose entries) (map snd xs)) new"
  using assms
proof (induction xs arbitrary: acc w)
  case Nil
  then show ?case by simp
next
  case (Cons x xs)
  obtain i frame_id where x: "x = (i, frame_id)" by (cases x)
  show ?case
  proof (cases "token_pose entries frame_id")
    case None
    with Cons.prems x show ?thesis by (simp add: Let_def)
  next
    case (Some pose)
    show ?thesis
    proof (cases "all_isfinite pose")
      case False
      with Cons.prems x Some obtain w1 where
        "test_frames scene path verbose (token_pose entries) (last_intrinsics entries) n xs acc w1
           = (Inr frs, w')"
        by (simp add: Let_def)
      then have "\<exists>new. frs = acc @ new \<and>
           list_all2 (test_frame_ok scene path entries)
             (filter (has_finite_token_pose entries) (map snd xs)) new"
        by (rule Cons.IH)
      moreover have "\<not> has_finite_token_pose entries frame_id"
        using False Some by (simp add: has_finite_token_pose_def)
      ultimately show ?thesis
        using x by simp
    next
      case True
      from Cons.prems x Some True obtain K where K: "last_intrinsics entries = Some K"
        by (cases "last_intrinsics entries") (simp_all add: Let_def)
      let ?fr = "\<lparr>f_file_name_image = color_file path scene frame_id,
                  f_intrinsics = K, f_pose = pose\<rparr>"
      from Cons.prems x Some True K obtain w1 where
        "test_frames scene path verbose (token_pose entries) (last_intrinsics entries) n xs
           (acc @ [?fr]) w1 = (Inr frs, w')"
        by (simp add: Let_def)
      from Cons.IH [OF this] obtain new where
        new: "frs = (acc @ [?fr]) @ new"
          "list_all2 (test_frame_ok scene path entries)
             (filter (has_finite_token_pose entries) (map snd xs)) new"
        by blast
      have "test_frame_ok scene path entries frame_id ?fr"
        using Some True K by (simp add: test_frame_ok_def)
      moreover have "has_finite_token_pose entries frame_id"
        using True Some by (simp add: has_finite_token_pose_def)
      ultimately show ?thesis
        using new x by (intro exI [of _ "?fr # new"]) simp
    qed
  qed
qed

lemma test_frames_total:
  assumes "\<forall>x \<in> set xs. poses (snd x) \<noteq> None"
    and "K \<noteq> None \<or> xs = []"
  shows "\<exists>frs w'. test_frames scene path verbose poses K n xs acc w = (Inr frs, w')"
  using assms
  by (induction xs arbitrary: acc w) (auto simp: Let_def split: option.splits)


lemma test_table_Inr:
  assumes "test_table e body = Inr (poses, ids, K)"
  shows "\<exists>entries. map (pose_line e) (readlines body) = map Inr entries \<and>
           ids = map fst entries \<and> poses = token_pose entries \<and> K = last_intrinsics entries"
proof -
  from read_pose_table_Inr [OF assms] obtain entries where
    en: "map (pose_line e) (readlines body) = map Inr entries"
      "ids = [] @ map fst entries"
      "\<forall>tok. poses tok = (case token_pose entries tok of None \<Rightarrow> Map.empty tok | Some P \<Rightarrow> Some P)"
      "K = (case last_intrinsics entries of None \<Rightarrow> None | Some k \<Rightarrow> Some k)"
    by blast
  have "poses = token_pose entries"
  proof
    fix tok show "poses tok = token_pose entries tok"
      using en(3) by (simp split: option.splits)
  qed
  moreover have "K = last_intrinsics entries"
    using en(4) by (simp split: option.splits)
  ultimately show ?thesis using en(1,2) by auto
qed

lemma prepare_test_scene_Inr:
  assumes "prepare_test_scene e scene path path_meta verbose w = (Inr u, w')"
  shows "\<exists>body entries frs.
           fs_files e (pose_file_B path scene) = Some body \<and>
           map (pose_line e) (readlines body) = map Inr entries \<and>
           list_all2 (test_frame_ok scene path entries)
             (filter (has_finite_token_pose entries) (map fst entries)) frs \<and>
           written w' = (written w)(info_file path_meta scene \<mapsto> sample_data path scene frs)"
proof -
  define w1 where "w1 = (if verbose > 0 then print (''preparing '' @ scene) w else w)"
  have ww1: "written w1 = written w" by (simp add: w1_def)
  from assms obtain body where
    src: "fs_files e (pose_file_B path scene) = Some body"
    by (auto simp: prepare_test_scene_def Let_def split: option.splits)
  from assms src obtain poses ids K where
    tb: "test_table e body = Inr (poses, ids, K)"
    by (auto simp: prepare_test_scene_def Let_def split: sum.splits)
  from assms src tb obtain frs w2 where
    loop: "test_frames scene path verbose poses K (length ids) (enumerate 0 ids) [] w1 = (Inr frs, w2)"
    and dump: "dump_info e path_meta scene (sample_data path scene frs) w2 = (Inr u, w')"
    by (auto simp: prepare_test_scene_def Let_def w1_def split: sum.splits prod.splits)
  from test_table_Inr [OF tb] obtain entries where
    en: "map (pose_line e) (readlines body) = map Inr entries"
      "ids = map fst entries" "poses = token_pose entries" "K = last_intrinsics entries"
    by blast
  from test_frames_Inr [OF loop [unfolded en(3,4)]] have
    frs: "list_all2 (test_frame_ok scene path entries)
            (filter (has_finite_token_pose entries) (map fst entries)) frs"
    by (simp add: map_snd_enumerate en(2))
  have "written w2 = written w1"
    using test_frames_written [of scene path verbose poses K "length ids" "enumerate 0 ids" "[]" w1]
      loop by simp
  with dump_info_Inr [OF dump] ww1 have
    "written w' = (written w)(info_file path_meta scene \<mapsto> sample_data path scene frs)"
    by simp
  with src en(1) frs show ?thesis by blast
qed

lemma prepare_test_scene_Inl:
  assumes "prepare_test_scene e scene path path_meta verbose w = (Inl err, w')"
  shows "written w' = written w"
proof -
  define w1 where "w1 = (if verbose > 0 then print (''preparing '' @ scene) w else w)"
  have ww1: "written w1 = written w" by (simp add: w1_def)
  show ?thesis
  proof (cases "fs_files e (pose_file_B path scene)")
    case None
    with assms ww1 show ?thesis
      by (auto simp: prepare_test_scene_def Let_def w1_def)
  next
    case src: (Some body)
    show ?thesis
    proof (cases "test_table e body")
      case (Inl a)
      with assms src ww1 show ?thesis
        by (auto simp: prepare_test_scene_def Let_def w1_def)
    next
      case (Inr tb)
      obtain poses ids K where tb: "tb = (poses, ids, K)" by (cases tb)
      obtain r w2 where loop:
        "test_frames scene path verbose poses K (length ids) (enumerate 0 ids) [] w1 = (r, w2)"
        by (cases "test_frames scene path verbose poses K (length ids) (enumerate 0 ids) [] w1")
      have w2: "written w2 = written w"
        using test_frames_written [of scene path verbose poses K "length ids" "enumerate 0 ids" "[]" w1]
          loop ww1 by simp
      show ?thesis
      proof (cases r)
        case (Inl a)
        with assms src Inr tb loop w2 show ?thesis
          by (simp add: prepare_test_scene_def Let_def w1_def)
      next
        case frs: (Inr frs)
        with assms src Inr tb loop have
          "dump_info e path_meta scene (sample_data path scene frs) w2 = (Inl err, w')"
          by (simp add: prepare_test_scene_def Let_def w1_def)
        from dump_info_Inl [OF this] w2 show ?thesis by simp
      qed
    qed
  qed
qed

lemma prepare_test_scene_total:
  assumes src: "fs_files e (pose_file_B path scene) = Some body"
    and lines: "map (pose_line e) (readlines body) = map Inr entries"
    and mk: "can_makedirs e (os_path_join path_meta [scene])"
    and op: "can_open_w e (info_file path_meta scene)"
  shows "\<exists>w'. prepare_test_scene e scene path path_meta verbose w = (Inr (), w')"
proof -
  define w1 where "w1 = (if verbose > 0 then print (''preparing '' @ scene) w else w)"
  from read_pose_table_total [OF lines] obtain tb where
    "test_table e body = Inr tb" by blast
  then obtain poses ids K where tb: "test_table e body = Inr (poses, ids, K)"
    by (cases tb) auto
  from test_table_Inr [OF tb] obtain entries' where
    en: "map (pose_line e) (readlines body) = map Inr entries'"
      "ids = map fst entries'" "poses = token_pose entries'" "K = last_intrinsics entries'"
    by blast
  have "\<forall>x \<in> set (enumerate 0 ids). poses (snd x) \<noteq> None"
  proof
    fix x assume "x \<in> set (enumerate 0 ids)"
    then have "snd x \<in> snd ` set (enumerate 0 ids)" by (rule imageI)
    then have "snd x \<in> set ids" by (metis list.set_map map_snd_enumerate)
    then have "snd x \<in> fst ` set entries'" by (simp add: en(2))
    from token_pose_mem [OF this] show "poses (snd x) \<noteq> None" by (simp add: en(3))
  qed
  moreover have "K \<noteq> None \<or> enumerate 0 ids = []"
    by (cases entries') (simp_all add: en(2,4) last_intrinsics_Cons enumerate_eq_zip split: option.splits)
  ultimately obtain frs w2 where
    "test_frames scene path verbose poses K (length ids) (enumerate 0 ids) [] w1 = (Inr frs, w2)"
    using test_frames_total by blast
  with src tb dump_info_ok [OF mk op] show ?thesis
    by (simp add: prepare_test_scene_def Let_def w1_def)
qed

subsection \<open>The fields of a line\<close>

lemma pose_line_Inr:
  assumes "pose_line e line = Inr (tok, K, P)"
  shows "\<exists>Ki R t.
           np_array_reshape e (slice 1 10 (split_sep CHR '' '' (strip_nl line))) 3 3 = Inr Ki \<and>
           np_array_reshape e (slice 10 19 (split_sep CHR '' '' (strip_nl line))) 3 3 = Inr R \<and>
           np_array_reshape e (slice 19 22 (split_sep CHR '' '' (strip_nl line))) 3 1 = Inr t \<and>
           tok = hd (split_sep CHR '' '' (strip_nl line)) \<and>
           K = Arr2 Ki \<and>
           P = Arr2 (map2 (@) R t @ [[Fin 0, Fin 0, Fin 0, Fin 1]])"
  using assms
  by (auto simp: pose_line_def Let_def split: sum.splits list.splits)

lemma map_Inr_last:
  "map f xs = map Inr ys \<Longrightarrow> xs \<noteq> [] \<Longrightarrow> f (last xs) = Inr (last ys) \<and> ys \<noteq> []"
  by (metis last_map list.map_disc_iff)


lemma last_intrinsics_last:
  "entries \<noteq> [] \<Longrightarrow> last_intrinsics entries = Some (fst (snd (last entries)))"
  by (cases entries) (simp_all add: last_intrinsics_def)

lemma pose_line_tokens:
  assumes "map (pose_line e) ls = map Inr entries"
  shows "map fst entries = map (\<lambda>line. hd (split_sep CHR '' '' (strip_nl line))) ls"
  using assms
proof (induction ls arbitrary: entries)
  case Nil
  then show ?case by simp
next
  case (Cons l ls)
  then obtain en ens where
    en: "entries = en # ens" "pose_line e l = Inr en" "map (pose_line e) ls = map Inr ens"
    by (cases entries) auto
  obtain tok K P where "en = (tok, K, P)" by (cases en)
  with en(2) pose_line_Inr have "fst en = hd (split_sep CHR '' '' (strip_nl l))"
    by fastforce
  with Cons.IH [OF en(3)] en(1) show ?case by simp
qed

subsection \<open>Lines that parse\<close>

lemma those_map_Some_id: "those (map Some xs) = Some xs"
  by (induction xs) simp_all

lemma np_array_reshape_Inr:
  assumes "np_array_reshape e ws r c = Inr X"
  shows "length ws = r * c \<and> (\<forall>w \<in> set ws. np_float32 e w \<noteq> None)"
proof -
  from assms obtain xs where xs: "those (map (np_float32 e) ws) = Some xs" "length xs = r * c"
    by (auto simp: np_array_reshape_def split: option.splits if_splits)
  from those_map_length [OF xs(1)] xs(2) have "length ws = r * c" by simp
  moreover from xs(1) those_map_Some_iff [of "np_float32 e" ws]
  have "\<forall>w \<in> set ws. np_float32 e w \<noteq> None" by blast
  ultimately show ?thesis ..
qed

lemma slice_length: "length (slice i j xs) = min (j - i) (length xs - i)"
  by (simp add: slice_def)

lemma slice_nth_mem:
  assumes "i \<le> k" "k < j" "j \<le> length xs"
  shows "xs ! k \<in> set (slice i j xs)"
proof -
  have "slice i j xs ! (k - i) = xs ! k"
    using assms by (simp add: slice_def)
  moreover have "k - i < length (slice i j xs)"
    using assms by (simp add: slice_def)
  ultimately show ?thesis by (metis nth_mem)
qed

lemma pose_line_Inr_fields:
  assumes "pose_line e line = Inr r"
  shows "22 \<le> length (split_sep CHR '' '' (strip_nl line)) \<and>
         (\<forall>k. 1 \<le> k \<and> k \<le> 21 \<longrightarrow> np_float32 e (split_sep CHR '' '' (strip_nl line) ! k) \<noteq> None)"
proof -
  let ?words = "split_sep CHR '' '' (strip_nl line)"
  obtain tok K P where "r = (tok, K, P)" by (cases r)
  with assms pose_line_Inr obtain Ki R t where
    a: "np_array_reshape e (slice 1 10 ?words) 3 3 = Inr Ki"
    and b: "np_array_reshape e (slice 10 19 ?words) 3 3 = Inr R"
    and c: "np_array_reshape e (slice 19 22 ?words) 3 1 = Inr t"
    by blast
  from np_array_reshape_Inr [OF c] have "min 3 (length ?words - 19) = 3"
    by (simp add: slice_length)
  then have len: "22 \<le> length ?words" by linarith
  have "np_float32 e (?words ! k) \<noteq> None" if k: "1 \<le> k" "k \<le> 21" for k
  proof -
    consider "k < 10" | "10 \<le> k" "k < 19" | "19 \<le> k" by linarith
    then show ?thesis
    proof cases
      case 1
      with k len have "?words ! k \<in> set (slice 1 10 ?words)" by (intro slice_nth_mem) simp_all
      with np_array_reshape_Inr [OF a] show ?thesis by blast
    next
      case 2
      with k len have "?words ! k \<in> set (slice 10 19 ?words)" by (intro slice_nth_mem) simp_all
      with np_array_reshape_Inr [OF b] show ?thesis by blast
    next
      case 3
      with k len have "?words ! k \<in> set (slice 19 22 ?words)" by (intro slice_nth_mem) simp_all
      with np_array_reshape_Inr [OF c] show ?thesis by blast
    qed
  qed
  with len show ?thesis by blast
qed

subsection \<open>What \<^verbatim>\<open>verbose\<close> changes\<close>













subsection \<open>Formatting and reading identifiers\<close>

lemma digit_chars:
  "list_all (\<lambda>n. is_digit (''0123456789'' ! n) \<and> digit_val (''0123456789'' ! n) = n) [0..<10]"
  by (simp add: upt_rec is_digit_def digit_val_def)

lemma digit_char: "n < 10 \<Longrightarrow> is_digit (''0123456789'' ! n) \<and> digit_val (''0123456789'' ! n) = n"
  using digit_chars by (simp add: list_all_iff del: upt_Suc)

lemma str_nat_digits: "list_all is_digit (str_nat n)"
proof (induction n rule: str_nat.induct)
  case (1 n)
  show ?case
  proof (cases "n < 10")
    case True
    then show ?thesis by (subst str_nat.simps) (simp add: digit_char)
  next
    case False
    with 1 show ?thesis by (subst str_nat.simps) (simp add: digit_char)
  qed
qed

lemma str_nat_not_Nil: "str_nat n \<noteq> []"
  by (subst str_nat.simps) simp

lemma str_nat_length: "0 < k \<Longrightarrow> n < 10 ^ k \<Longrightarrow> length (str_nat n) \<le> k"
proof (induction n arbitrary: k rule: str_nat.induct)
  case (1 n)
  show ?case
  proof (cases "n < 10")
    case True
    with 1 show ?thesis by (subst str_nat.simps) simp
  next
    case False
    with "1.prems" obtain j where k: "k = Suc j" by (cases k) auto
    from False "1.prems" k have "0 < j" by (cases j) auto
    moreover from "1.prems" k have "n div 10 < 10 ^ j"
      by (simp add: less_mult_imp_div_less mult.commute)
    ultimately have "length (str_nat (n div 10)) \<le> j"
      using "1.IH" False by simp
    with False k show ?thesis by (subst str_nat.simps) simp
  qed
qed

lemma dec_value_digits:
  "list_all is_digit ds \<Longrightarrow> dec_value acc ds = Some (foldl dec_step acc ds)"
  by (induction acc ds rule: dec_value.induct) simp_all

lemma filter_digits: "list_all is_digit ds \<Longrightarrow> filter is_digit ds = ds"
  by (simp add: list_all_iff)

lemma py_int_digits_digits:
  "ds \<noteq> [] \<Longrightarrow> list_all is_digit ds \<Longrightarrow> length ds \<le> max_str_digits \<Longrightarrow>
   py_int_digits ds = Some (foldl dec_step 0 ds)"
  by (cases ds) (simp_all add: py_int_digits_def dec_value_digits filter_digits)

lemma foldl_str_nat: "foldl dec_step 0 (str_nat n) = n"
proof (induction n rule: str_nat.induct)
  case (1 n)
  show ?case
  proof (cases "n < 10")
    case True
    then show ?thesis by (subst str_nat.simps) (simp add: digit_char)
  next
    case False
    with 1 show ?thesis by (subst str_nat.simps) (simp add: digit_char)
  qed
qed

lemma foldl_zeros: "foldl dec_step 0 (replicate j CHR ''0'' @ ds) = foldl dec_step 0 ds"
  by (induction j) (simp_all add: digit_val_def)

lemma zero_is_digit: "is_digit CHR ''0''"
  by (simp add: is_digit_def)

lemma list_all_last: "list_all P xs \<Longrightarrow> xs \<noteq> [] \<Longrightarrow> P (last xs)"
  by (simp add: list_all_iff)

lemma zeros_digits: "list_all is_digit (replicate j CHR ''0'')"
  by (induction j) (simp_all add: zero_is_digit)

lemma padded_value:
  assumes "j + length (str_nat n) \<le> max_str_digits"
  shows "py_int_digits (replicate j CHR ''0'' @ str_nat n) = Some n"
proof -
  have "list_all is_digit (replicate j CHR ''0'' @ str_nat n)"
    by (simp add: str_nat_digits zeros_digits)
  moreover have "replicate j CHR ''0'' @ str_nat n \<noteq> []"
    by (simp add: str_nat_not_Nil)
  ultimately have "py_int_digits (replicate j CHR ''0'' @ str_nat n) =
      Some (foldl dec_step 0 (replicate j CHR ''0'' @ str_nat n))"
    using assms by (intro py_int_digits_digits) simp_all
  then show ?thesis by (simp only: foldl_zeros foldl_str_nat)
qed

lemma dropWhile_hd: "s \<noteq> [] \<Longrightarrow> \<not> P (hd s) \<Longrightarrow> dropWhile P s = s"
  by (cases s) simp_all

lemma strip_chars_id:
  assumes "s \<noteq> []" "\<not> P (hd s)" "\<not> P (last s)"
  shows "strip_chars P s = s"
proof -
  have "dropWhile P s = s" using assms(1,2) by (rule dropWhile_hd)
  moreover have "dropWhile P (rev s) = rev s"
    using assms(1,3) by (intro dropWhile_hd) (simp_all add: hd_rev)
  ultimately show ?thesis by (simp add: strip_chars_def)
qed

lemma digit_not_space: "is_digit c \<Longrightarrow> \<not> is_c_space c \<and> c \<noteq> CHR ''-'' \<and> c \<noteq> CHR ''+''"
  by (auto simp: is_digit_def is_c_space_def)

lemma fmt_08d_roundtrip:
  assumes "length (str_nat (nat \<bar>n\<bar>)) \<le> max_str_digits"
  shows "py_int (fmt_08d n) = Some n"
proof -
  let ?ds = "str_nat (nat \<bar>n\<bar>)"
  have lim: "8 \<le> max_str_digits" by (simp add: max_str_digits_def)
  show ?thesis
  proof (cases "n < 0")
    case True
    let ?body = "replicate (8 - 1 - length ?ds) CHR ''0'' @ ?ds"
    have f: "fmt_08d n = CHR ''-'' # ?body"
      using True by (simp add: fmt_08d_def Let_def)
    have dig: "list_all is_digit ?body"
      by (simp add: str_nat_digits zeros_digits)
    have ne: "?body \<noteq> []" by (simp add: str_nat_not_Nil)
    have "last (CHR ''-'' # ?body) = last ?ds"
      by (simp add: str_nat_not_Nil)
    moreover have "is_digit (last ?ds)"
      using str_nat_digits str_nat_not_Nil by (rule list_all_last)
    ultimately have "\<not> is_c_space (last (CHR ''-'' # ?body))"
      using digit_not_space by simp
    moreover have "\<not> is_c_space CHR ''-''" by (simp add: is_c_space_def)
    ultimately have "strip_chars is_c_space (CHR ''-'' # ?body) = CHR ''-'' # ?body"
      by (intro strip_chars_id) simp_all
    moreover have "py_int_digits ?body = Some (nat \<bar>n\<bar>)"
      using assms lim by (intro padded_value) simp
    ultimately show ?thesis
      using True by (simp add: py_int_def f)
  next
    case False
    define body where "body = replicate (8 - length ?ds) CHR ''0'' @ ?ds"
    have f: "fmt_08d n = body"
      using False by (simp add: fmt_08d_def Let_def body_def)
    have dig: "list_all is_digit body"
      by (simp add: body_def str_nat_digits zeros_digits)
    have ne: "body \<noteq> []" by (simp add: body_def str_nat_not_Nil)
    then obtain c cs where cs: "body = c # cs" by (cases body) auto
    with dig have c: "is_digit c" by simp
    have "is_digit (last body)" using dig ne by (rule list_all_last)
    then have "\<not> is_c_space (last body)" using digit_not_space by blast
    moreover have "\<not> is_c_space (hd body)" using c digit_not_space unfolding cs by simp
    ultimately have strip: "strip_chars is_c_space body = body"
      using ne by (intro strip_chars_id)
    have "py_int_digits (replicate (8 - length ?ds) CHR ''0'' @ ?ds) = Some (nat \<bar>n\<bar>)"
      using assms lim by (intro padded_value) simp
    then have pv: "py_int_digits (c # cs) = Some (nat \<bar>n\<bar>)"
      by (simp only: body_def [symmetric] cs)
    show ?thesis
      unfolding py_int_def f strip using False digit_not_space [OF c]
      by (simp add: cs pv)
  qed
qed

lemma fmt_08d_padded:
  assumes "0 \<le> n"
  shows "fmt_08d n = spec_zero_pad8 (nat n) \<and> list_all is_digit (fmt_08d n) \<and>
         8 \<le> length (fmt_08d n) \<and> (n < 10 ^ 8 \<longrightarrow> length (fmt_08d n) = 8)"
proof -
  have f: "fmt_08d n = spec_zero_pad8 (nat n)"
    using assms by (simp add: fmt_08d_def spec_zero_pad8_def Let_def)
  have d: "list_all is_digit (spec_zero_pad8 (nat n))"
    by (simp add: spec_zero_pad8_def str_nat_digits zeros_digits)
  have l: "8 \<le> length (spec_zero_pad8 (nat n))"
    by (simp add: spec_zero_pad8_def)
  have "length (spec_zero_pad8 (nat n)) = 8" if "n < 10 ^ 8"
  proof -
    from that assms have "nat n < 10 ^ 8" by (simp add: nat_less_iff)
    then have "length (str_nat (nat n)) \<le> 8" by (intro str_nat_length) simp_all
    then show ?thesis by (simp add: spec_zero_pad8_def)
  qed
  with f d l show ?thesis by simp
qed

lemma fmt_08d_hd: "fmt_08d n \<noteq> [] \<and> hd (fmt_08d n) \<noteq> CHR ''/''"
proof (cases "n < 0")
  case True
  then show ?thesis by (simp add: fmt_08d_def Let_def)
next
  case False
  let ?body = "replicate (8 - length (str_nat (nat \<bar>n\<bar>))) CHR ''0'' @ str_nat (nat \<bar>n\<bar>)"
  have f: "fmt_08d n = ?body" using False by (simp add: fmt_08d_def Let_def)
  have "list_all is_digit ?body" by (simp add: str_nat_digits zeros_digits)
  moreover have ne: "?body \<noteq> []" by (simp add: str_nat_not_Nil)
  ultimately have "is_digit (hd ?body)" by (cases ?body) simp_all
  then have "hd ?body \<noteq> CHR ''/''" by (auto simp: is_digit_def)
  with ne f show ?thesis by simp
qed

lemma color_file_expand:
  assumes "scene \<noteq> []" "hd scene \<noteq> CHR ''/''" "last scene \<noteq> CHR ''/''"
    and "name \<noteq> []" "hd name \<noteq> CHR ''/''"
  shows "color_file path scene name =
           (if path = [] \<or> last path = CHR ''/'' then path else path @ ''/'') @
           scene @ ''/color/'' @ name"
  using assms by (simp add: os_path_join_def join_step_def)

text \<open>What \<^verbatim>\<open>int\<close> returns has no more digits than what it read.\<close>

lemma digit_val_less: "is_digit c \<Longrightarrow> digit_val c < 10"
  by (auto simp: is_digit_def digit_val_def)

lemma dec_value_bound:
  "dec_value acc s = Some v \<Longrightarrow> v < (acc + 1) * 10 ^ length (filter is_digit s)"
proof (induction acc s arbitrary: v rule: dec_value.induct)
  case (1 acc)
  then show ?case by simp
next
  case (2 acc c)
  then show ?case using digit_val_less [of c] by (auto split: if_splits)
next
  case (3 acc c d cs)
  show ?case
  proof (cases "is_digit c")
    case True
    with "3.prems" have "dec_value (10 * acc + digit_val c) (d # cs) = Some v" by simp
    from "3.IH"(1) [OF True this]
    have "v < (10 * acc + digit_val c + 1) * 10 ^ length (filter is_digit (d # cs))" .
    also have "\<dots> \<le> (10 * acc + 10) * 10 ^ length (filter is_digit (d # cs))"
      using digit_val_less [OF True] by (intro mult_right_mono) simp_all
    also have "\<dots> = (acc + 1) * 10 ^ length (filter is_digit (c # d # cs))"
      using True by (simp add: algebra_simps)
    finally show ?thesis .
  next
    case False
    with "3.prems" have u: "c = CHR ''_'' \<and> is_digit d" and r: "dec_value acc (d # cs) = Some v"
      by (auto split: if_splits)
    from "3.IH"(2) [OF False u r] False show ?thesis by simp
  qed
qed

lemma py_int_digits_bound:
  assumes "py_int_digits s = Some m"
  shows "length (str_nat m) \<le> max_str_digits"
proof -
  from assms have lim: "length (filter is_digit s) \<le> max_str_digits"
    by (auto simp: py_int_digits_def split: if_splits)
  from assms obtain c cs where s: "s = c # cs" and c: "is_digit c"
    and v: "dec_value (digit_val c) cs = Some m"
    by (auto simp: py_int_digits_def split: if_splits list.splits)
  from dec_value_bound [OF v] have "m < (digit_val c + 1) * 10 ^ length (filter is_digit cs)" .
  also have "\<dots> \<le> 10 * 10 ^ length (filter is_digit cs)"
    using digit_val_less [OF c] by (intro mult_right_mono) simp_all
  also have "\<dots> = 10 ^ length (filter is_digit s)"
    using s c by simp
  finally have "m < 10 ^ length (filter is_digit s)" .
  moreover have "0 < length (filter is_digit s)" using s c by simp
  ultimately have "length (str_nat m) \<le> length (filter is_digit s)"
    by (intro str_nat_length)
  with lim show ?thesis by simp
qed

lemma py_int_bound:
  assumes "py_int s = Some n"
  shows "length (str_nat (nat \<bar>n\<bar>)) \<le> max_str_digits"
proof -
  from assms obtain t m where "py_int_digits t = Some m" and "n = int m \<or> n = - int m"
    by (auto simp: py_int_def split: list.splits if_splits)
  then have "nat \<bar>n\<bar> = m" and "length (str_nat m) \<le> max_str_digits"
    using py_int_digits_bound by auto
  then show ?thesis by simp
qed

lemma those_map_mem:
  "those (map f xs) = Some ys \<Longrightarrow> y \<in> set ys \<Longrightarrow> \<exists>x \<in> set xs. f x = Some y"
  by (induction xs arbitrary: ys) (auto split: option.splits)

lemma list_all2_left_mem:
  "list_all2 P xs ys \<Longrightarrow> list_all2 (\<lambda>x y. P x y \<and> x \<in> set xs) xs ys"
  by (induction rule: list_all2_induct) (auto elim: list_all2_mono)

section \<open>The example, evaluated\<close>

lemma example_fmt_08d:
  "fmt_08d 0 = ''00000000''" "fmt_08d 1 = ''00000001''" "fmt_08d 2 = ''00000002''"
  by code_simp+

lemma example_frame_ids:
  "frame_id_of ''00000000.jpg'' = Some 0" "frame_id_of ''00000001.jpg'' = Some 1"
  "frame_id_of ''00000002.jpg'' = Some 2"
  by code_simp+


lemma example_fmt_d: "fmt_d 0 = ''0''" "fmt_d 1 = ''1''" "fmt_d 3 = ''3''"
  by code_simp+

lemmas example_simps =
  example_env_def w0_def Let_def np_loadtxt_def os_listdir_def os_path_join_def join_step_def
  example_frame_ids example_fmt_08d example_fmt_d frame_msg_def print_def dump_info_def
  enumerate_eq_zip upt_rec I3_def I4_def shift_def K2_def

lemma example_sample_run:
  "prepare_sample_scene example_env ''s'' ''data'' ''meta'' 2 w0 =
     (Inr (), \<lparr>stdout = [''preparing s'', ''preparing s frame 0/3''],
               written = [''meta/s/info.json'' \<mapsto> sample_data ''data'' ''s'' s_sample_frames]\<rparr>)"
  by (simp add: prepare_sample_scene_def s_sample_frames_def example_simps)

lemma example_pose_lines:
  "map (pose_line example_env) (readlines s_pose_txt) = map Inr s_entries"
  by (simp add: pose_line_def s_entries_def s_pose_txt_def strip_nl_def strip_chars_def slice_def
      np_array_reshape_def example_simps)

lemma example_pose_txt: "fs_files example_env ''data/s/pose.txt'' = Some s_pose_txt"
  by (simp add: example_env_def)

lemma example_test_run:
  "prepare_test_scene example_env ''s'' ''data'' ''meta'' 2 w0 =
     (Inr (), \<lparr>stdout = [''preparing s'', ''preparing s frame 0/3''],
               written = [''meta/s/info.json'' \<mapsto> sample_data ''data'' ''s'' s_test_frames]\<rparr>)"
  by (simp add: prepare_test_scene_def s_test_frames_def s_pose_txt_def pose_line_def strip_nl_def
      strip_chars_def slice_def np_array_reshape_def example_simps)

section \<open>The claims of the specification\<close>

text \<open>
  C1. In a manifest written by either function every frame has a pose whose elements are
  all finite. More precisely the frames are, one for one and in order, the frame
  identifiers (variant A: the sorted identifiers of \<^verbatim>\<open>color/\<close>; variant B: the tokens of
  \<^verbatim>\<open>pose.txt\<close>) whose pose is finite, each with that pose: an identifier whose pose
  has a NaN or an infinity gets no record, and the identifiers after it are still
  processed.
\<close>

theorem manifest_poses_finite:
  "(prepare_sample_scene e scene path path_meta verbose w = (Inr u, wA) \<longrightarrow>
      (\<exists>names ids frs.
         fs_dirs e (color_dir path scene) = Some names \<and>
         those (map frame_id_of names) = Some ids \<and>
         written wA (info_file path_meta scene) = Some (sample_data path scene frs) \<and>
         list_all2 (\<lambda>frame_id fr. np_loadtxt e (pose_file path scene frame_id) = Inr (f_pose fr))
           (filter (has_finite_pose e scene path) (sort ids)) frs \<and>
         list_all (\<lambda>fr. all_isfinite (f_pose fr)) frs)) \<and>
   (prepare_test_scene e scene path path_meta verbose w = (Inr u, wB) \<longrightarrow>
      (\<exists>body entries frs.
         fs_files e (pose_file_B path scene) = Some body \<and>
         map (pose_line e) (readlines body) = map Inr entries \<and>
         written wB (info_file path_meta scene) = Some (sample_data path scene frs) \<and>
         list_all2 (\<lambda>tok fr. token_pose entries tok = Some (f_pose fr))
           (filter (has_finite_token_pose entries) (map fst entries)) frs \<and>
         list_all (\<lambda>fr. all_isfinite (f_pose fr)) frs))"
proof (intro conjI impI)
  assume "prepare_sample_scene e scene path path_meta verbose w = (Inr u, wA)"
  from prepare_sample_scene_Inr [OF this] obtain intrinsics names ids frs where
    names: "fs_dirs e (color_dir path scene) = Some names"
    and ids: "those (map frame_id_of names) = Some ids"
    and frs: "list_all2 (sample_frame_ok e scene path intrinsics)
                (filter (has_finite_pose e scene path) (sort ids)) frs"
    and wr: "written wA = (written w)(info_file path_meta scene \<mapsto> sample_data path scene frs)"
    by blast
  have "list_all2 (\<lambda>frame_id fr. np_loadtxt e (pose_file path scene frame_id) = Inr (f_pose fr))
          (filter (has_finite_pose e scene path) (sort ids)) frs"
    using frs by (rule list_all2_weaken) (simp add: sample_frame_ok_def)
  moreover have "list_all (\<lambda>fr. all_isfinite (f_pose fr)) frs"
    using frs by (rule list_all2_right) (simp add: sample_frame_ok_def)
  moreover have "written wA (info_file path_meta scene) = Some (sample_data path scene frs)"
    using wr by simp
  ultimately show "\<exists>names ids frs.
         fs_dirs e (color_dir path scene) = Some names \<and>
         those (map frame_id_of names) = Some ids \<and>
         written wA (info_file path_meta scene) = Some (sample_data path scene frs) \<and>
         list_all2 (\<lambda>frame_id fr. np_loadtxt e (pose_file path scene frame_id) = Inr (f_pose fr))
           (filter (has_finite_pose e scene path) (sort ids)) frs \<and>
         list_all (\<lambda>fr. all_isfinite (f_pose fr)) frs"
    using names ids by blast
next
  assume "prepare_test_scene e scene path path_meta verbose w = (Inr u, wB)"
  from prepare_test_scene_Inr [OF this] obtain body entries frs where
    src: "fs_files e (pose_file_B path scene) = Some body"
    and en: "map (pose_line e) (readlines body) = map Inr entries"
    and frs: "list_all2 (test_frame_ok scene path entries)
                (filter (has_finite_token_pose entries) (map fst entries)) frs"
    and wr: "written wB = (written w)(info_file path_meta scene \<mapsto> sample_data path scene frs)"
    by blast
  have "list_all2 (\<lambda>tok fr. token_pose entries tok = Some (f_pose fr))
          (filter (has_finite_token_pose entries) (map fst entries)) frs"
    using frs by (rule list_all2_weaken) (simp add: test_frame_ok_def)
  moreover have "list_all (\<lambda>fr. all_isfinite (f_pose fr)) frs"
    using frs by (rule list_all2_right) (simp add: test_frame_ok_def)
  moreover have "written wB (info_file path_meta scene) = Some (sample_data path scene frs)"
    using wr by simp
  ultimately show "\<exists>body entries frs.
         fs_files e (pose_file_B path scene) = Some body \<and>
         map (pose_line e) (readlines body) = map Inr entries \<and>
         written wB (info_file path_meta scene) = Some (sample_data path scene frs) \<and>
         list_all2 (\<lambda>tok fr. token_pose entries tok = Some (f_pose fr))
           (filter (has_finite_token_pose entries) (map fst entries)) frs \<and>
         list_all (\<lambda>fr. all_isfinite (f_pose fr)) frs"
    using src en by blast
qed

text \<open>
  On the example scene \<^verbatim>\<open>s\<close> both functions return; frame 1 (variant A) and the
  token \<^verbatim>\<open>f2\<close> (variant B) have a NaN and are left out, the frames after them are kept.
\<close>

theorem manifest_poses_finite_witness:
  "prepare_sample_scene example_env ''s'' ''data'' ''meta'' 2 w0 =
     (Inr (), \<lparr>stdout = [''preparing s'', ''preparing s frame 0/3''],
               written = [''meta/s/info.json'' \<mapsto> sample_data ''data'' ''s'' s_sample_frames]\<rparr>) \<and>
   prepare_test_scene example_env ''s'' ''data'' ''meta'' 2 w0 =
     (Inr (), \<lparr>stdout = [''preparing s'', ''preparing s frame 0/3''],
               written = [''meta/s/info.json'' \<mapsto> sample_data ''data'' ''s'' s_test_frames]\<rparr>) \<and>
   list_all (\<lambda>fr. all_isfinite (f_pose fr)) s_sample_frames \<and>
   list_all (\<lambda>fr. all_isfinite (f_pose fr)) s_test_frames \<and>
   map f_file_name_image s_sample_frames = [''data/s/color/00000000.jpg'', ''data/s/color/00000002.jpg''] \<and>
   map f_file_name_image s_test_frames = [''data/s/color/f1'', ''data/s/color/f1'']"
proof -
  let ?wA = "\<lparr>stdout = [''preparing s'', ''preparing s frame 0/3''],
               written = [''meta/s/info.json'' \<mapsto> sample_data ''data'' ''s'' s_sample_frames]\<rparr>"
  let ?wB = "\<lparr>stdout = [''preparing s'', ''preparing s frame 0/3''],
               written = [''meta/s/info.json'' \<mapsto> sample_data ''data'' ''s'' s_test_frames]\<rparr>"
  note inst = manifest_poses_finite [of example_env "''s''" "''data''" "''meta''" 2 w0 "()" ?wA ?wB]
  from inst example_sample_run obtain frsA where
    "written ?wA (info_file ''meta'' ''s'') = Some (sample_data ''data'' ''s'' frsA)"
    "list_all (\<lambda>fr. all_isfinite (f_pose fr)) frsA"
    by blast
  then have A: "list_all (\<lambda>fr. all_isfinite (f_pose fr)) s_sample_frames"
    by (simp add: os_path_join_def join_step_def)
  from inst example_test_run obtain frsB where
    "written ?wB (info_file ''meta'' ''s'') = Some (sample_data ''data'' ''s'' frsB)"
    "list_all (\<lambda>fr. all_isfinite (f_pose fr)) frsB"
    by blast
  then have B: "list_all (\<lambda>fr. all_isfinite (f_pose fr)) s_test_frames"
    by (simp add: os_path_join_def join_step_def)
  show ?thesis
    using A B example_sample_run example_test_run
    by (simp add: s_sample_frames_def s_test_frames_def)
qed

text \<open>
  C2. Variant B, \<^verbatim>\<open>pose.txt\<close> with at least one line: every frame of the manifest
  written has as its intrinsics the 3 by 3 matrix read from the fields 1 to 9 of the
  last line of the file, whatever the frame's own line says.
\<close>

theorem test_intrinsics_from_last_line:
  assumes "prepare_test_scene e scene path path_meta verbose w = (Inr u, w')"
    and "fs_files e (pose_file_B path scene) = Some body"
    and "readlines body \<noteq> []"
  shows "\<exists>K frs.
           np_array_reshape e
             (slice 1 10 (split_sep CHR '' '' (strip_nl (last (readlines body))))) 3 3 = Inr K \<and>
           written w' (info_file path_meta scene) = Some (sample_data path scene frs) \<and>
           list_all (\<lambda>fr. f_intrinsics fr = Arr2 K) frs"
proof -
  from prepare_test_scene_Inr [OF assms(1)] assms(2) obtain entries frs where
    en: "map (pose_line e) (readlines body) = map Inr entries"
    and frs: "list_all2 (test_frame_ok scene path entries)
                (filter (has_finite_token_pose entries) (map fst entries)) frs"
    and wr: "written w' = (written w)(info_file path_meta scene \<mapsto> sample_data path scene frs)"
    by auto
  from map_Inr_last [OF en assms(3)] have
    lst: "pose_line e (last (readlines body)) = Inr (last entries)" and ne: "entries \<noteq> []"
    by simp_all
  obtain tok K P where triple: "last entries = (tok, K, P)" by (cases "last entries")
  from pose_line_Inr [OF lst [unfolded triple]] obtain Ki where
    Ki: "np_array_reshape e
           (slice 1 10 (split_sep CHR '' '' (strip_nl (last (readlines body))))) 3 3 = Inr Ki"
      "K = Arr2 Ki"
    by blast
  have "last_intrinsics entries = Some (Arr2 Ki)"
    using last_intrinsics_last [OF ne] triple Ki(2) by simp
  then have "list_all (\<lambda>fr. f_intrinsics fr = Arr2 Ki) frs"
    using list_all2_right [OF frs, of "\<lambda>fr. f_intrinsics fr = Arr2 Ki"]
    by (simp add: test_frame_ok_def)
  with Ki(1) wr show ?thesis by auto
qed

text \<open>
  In the example the first line gives the identity and the last line \<open>K2\<close>; both
  records, the first line's too, carry \<open>K2\<close>.
\<close>

theorem test_intrinsics_from_last_line_witness:
  "fs_files example_env (pose_file_B ''data'' ''s'') = Some s_pose_txt \<and>
   length (readlines s_pose_txt) = 3 \<and>
   np_array_reshape example_env
     (slice 1 10 (split_sep CHR '' '' (strip_nl (hd (readlines s_pose_txt))))) 3 3 = Inr I3 \<and>
   np_array_reshape example_env
     (slice 1 10 (split_sep CHR '' '' (strip_nl (last (readlines s_pose_txt))))) 3 3 = Inr K2 \<and>
   written (snd (prepare_test_scene example_env ''s'' ''data'' ''meta'' 2 w0)) ''meta/s/info.json''
     = Some (sample_data ''data'' ''s'' s_test_frames) \<and>
   list_all (\<lambda>fr. f_intrinsics fr = Arr2 K2) s_test_frames"
proof -
  have src: "fs_files example_env (pose_file_B ''data'' ''s'') = Some s_pose_txt"
    by (simp add: example_env_def os_path_join_def join_step_def)
  have len: "length (readlines s_pose_txt) = 3"
    by (simp add: s_pose_txt_def)
  then have ne: "readlines s_pose_txt \<noteq> []" by auto
  have first: "np_array_reshape example_env
     (slice 1 10 (split_sep CHR '' '' (strip_nl (hd (readlines s_pose_txt))))) 3 3 = Inr I3"
    by (simp add: s_pose_txt_def strip_nl_def strip_chars_def slice_def np_array_reshape_def
        example_env_def I3_def)
  have lastl: "np_array_reshape example_env
     (slice 1 10 (split_sep CHR '' '' (strip_nl (last (readlines s_pose_txt))))) 3 3 = Inr K2"
    by (simp add: s_pose_txt_def strip_nl_def strip_chars_def slice_def np_array_reshape_def
        example_env_def K2_def)
  from test_intrinsics_from_last_line [OF example_test_run src ne] lastl
  obtain frs where
    "[''meta/s/info.json'' \<mapsto> sample_data ''data'' ''s'' s_test_frames] (info_file ''meta'' ''s'')
       = Some (sample_data ''data'' ''s'' frs)"
    "list_all (\<lambda>fr. f_intrinsics fr = Arr2 K2) frs"
    by auto
  then have "list_all (\<lambda>fr. f_intrinsics fr = Arr2 K2) s_test_frames"
    by (simp add: os_path_join_def join_step_def)
  with src len first lastl example_test_run show ?thesis by simp
qed

text \<open>
  C3, read as the specification words it (the path of the image relative to the source
  root), fails: the field holds the path joined to the source root. In the example the
  source root is \<^verbatim>\<open>data\<close>; frame 0 of the scene \<^verbatim>\<open>s\<close> has a finite pose and its
  record holds \<^verbatim>\<open>data/s/color/00000000.jpg\<close>, not \<^verbatim>\<open>s/color/00000000.jpg\<close>.
\<close>

theorem relative_image_path_counterexample:
  "fst (prepare_sample_scene example_env ''s'' ''data'' ''meta'' 2 w0) = Inr () \<and>
   written (snd (prepare_sample_scene example_env ''s'' ''data'' ''meta'' 2 w0)) ''meta/s/info.json''
     = Some (sample_data ''data'' ''s'' s_sample_frames) \<and>
   has_finite_pose example_env ''s'' ''data'' 0 \<and>
   map f_file_name_image s_sample_frames =
     [''data/s/color/00000000.jpg'', ''data/s/color/00000002.jpg''] \<and>
   spec_image_path ''s'' 0 = ''s/color/00000000.jpg'' \<and>
   spec_image_path ''s'' 0 \<notin> set (map f_file_name_image s_sample_frames)"
proof -
  have fin: "has_finite_pose example_env ''s'' ''data'' 0"
    by (simp add: has_finite_pose_def example_simps)
  have paths: "map f_file_name_image s_sample_frames =
     [''data/s/color/00000000.jpg'', ''data/s/color/00000002.jpg'']"
    by (simp add: s_sample_frames_def)
  have spec: "spec_image_path ''s'' 0 = ''s/color/00000000.jpg''"
    by code_simp
  from fin paths spec show ?thesis
    by (simp add: example_sample_run)
qed

text \<open>
  C3, amended to what the code does. In the manifest written by
  \<^verbatim>\<open>prepare_sample_scene\<close> the frames are, one for one, the identifiers with a finite
  pose, and the image path of each is
  \<^verbatim>\<open>os.path.join(path, scene, 'color', '%08d.jpg' % frame_id)\<close>: for a scene name that
  is not empty and neither starts nor ends with a slash, the source root (with a slash
  unless it is empty or ends with one), then \<^verbatim>\<open>scene/color/\<close>, the formatted
  identifier and \<^verbatim>\<open>.jpg\<close>. The formatted identifier reads back as the identifier; for
  an identifier that is not negative it is the identifier zero-padded to 8 digits, all
  of them digits, exactly 8 below \<open>10^8\<close>.
\<close>

theorem sample_image_path:
  assumes "prepare_sample_scene e scene path path_meta verbose w = (Inr u, w')"
  shows "\<exists>names ids frs.
           fs_dirs e (color_dir path scene) = Some names \<and>
           map frame_id_of names = map Some ids \<and>
           written w' (info_file path_meta scene) = Some (sample_data path scene frs) \<and>
           list_all2
             (\<lambda>frame_id fr.
                f_file_name_image fr =
                  os_path_join path [scene, ''color'', fmt_08d frame_id @ ''.jpg''] \<and>
                (scene \<noteq> [] \<and> hd scene \<noteq> CHR ''/'' \<and> last scene \<noteq> CHR ''/'' \<longrightarrow>
                   f_file_name_image fr =
                     (if path = [] \<or> last path = CHR ''/'' then path else path @ ''/'') @
                     scene @ ''/color/'' @ fmt_08d frame_id @ ''.jpg'') \<and>
                py_int (fmt_08d frame_id) = Some frame_id \<and>
                (0 \<le> frame_id \<longrightarrow>
                   fmt_08d frame_id = spec_zero_pad8 (nat frame_id) \<and>
                   list_all is_digit (fmt_08d frame_id)) \<and>
                (0 \<le> frame_id \<and> frame_id < 10 ^ 8 \<longrightarrow> length (fmt_08d frame_id) = 8))
             (filter (has_finite_pose e scene path) (sort ids)) frs"
proof -
  from prepare_sample_scene_Inr [OF assms] obtain intrinsics names ids frs where
    names: "fs_dirs e (color_dir path scene) = Some names"
    and ids: "those (map frame_id_of names) = Some ids"
    and frs: "list_all2 (sample_frame_ok e scene path intrinsics)
                (filter (has_finite_pose e scene path) (sort ids)) frs"
    and wr: "written w' = (written w)(info_file path_meta scene \<mapsto> sample_data path scene frs)"
    by blast
  have expand: "color_file path scene (fmt_08d frame_id @ ''.jpg'') =
      (if path = [] \<or> last path = CHR ''/'' then path else path @ ''/'') @
      scene @ ''/color/'' @ fmt_08d frame_id @ ''.jpg''"
    if "scene \<noteq> []" "hd scene \<noteq> CHR ''/''" "last scene \<noteq> CHR ''/''" for frame_id
    using that fmt_08d_hd [of frame_id]
    by (intro color_file_expand) simp_all
  have "list_all2
             (\<lambda>frame_id fr.
                f_file_name_image fr =
                  os_path_join path [scene, ''color'', fmt_08d frame_id @ ''.jpg''] \<and>
                (scene \<noteq> [] \<and> hd scene \<noteq> CHR ''/'' \<and> last scene \<noteq> CHR ''/'' \<longrightarrow>
                   f_file_name_image fr =
                     (if path = [] \<or> last path = CHR ''/'' then path else path @ ''/'') @
                     scene @ ''/color/'' @ fmt_08d frame_id @ ''.jpg'') \<and>
                py_int (fmt_08d frame_id) = Some frame_id \<and>
                (0 \<le> frame_id \<longrightarrow>
                   fmt_08d frame_id = spec_zero_pad8 (nat frame_id) \<and>
                   list_all is_digit (fmt_08d frame_id)) \<and>
                (0 \<le> frame_id \<and> frame_id < 10 ^ 8 \<longrightarrow> length (fmt_08d frame_id) = 8))
             (filter (has_finite_pose e scene path) (sort ids)) frs"
    using list_all2_left_mem [OF frs]
  proof (rule list_all2_weaken)
    fix frame_id fr
    assume a: "sample_frame_ok e scene path intrinsics frame_id fr \<and>
      frame_id \<in> set (filter (has_finite_pose e scene path) (sort ids))"
    then have p: "f_file_name_image fr = color_file path scene (fmt_08d frame_id @ ''.jpg'')"
      by (simp add: sample_frame_ok_def)
    from a have "frame_id \<in> set ids" by simp
    from those_map_mem [OF ids this] py_int_bound
    have bound: "length (str_nat (nat \<bar>frame_id\<bar>)) \<le> max_str_digits" by blast
    show "f_file_name_image fr =
                  os_path_join path [scene, ''color'', fmt_08d frame_id @ ''.jpg''] \<and>
                (scene \<noteq> [] \<and> hd scene \<noteq> CHR ''/'' \<and> last scene \<noteq> CHR ''/'' \<longrightarrow>
                   f_file_name_image fr =
                     (if path = [] \<or> last path = CHR ''/'' then path else path @ ''/'') @
                     scene @ ''/color/'' @ fmt_08d frame_id @ ''.jpg'') \<and>
                py_int (fmt_08d frame_id) = Some frame_id \<and>
                (0 \<le> frame_id \<longrightarrow>
                   fmt_08d frame_id = spec_zero_pad8 (nat frame_id) \<and>
                   list_all is_digit (fmt_08d frame_id)) \<and>
                (0 \<le> frame_id \<and> frame_id < 10 ^ 8 \<longrightarrow> length (fmt_08d frame_id) = 8)"
    proof (intro conjI impI)
      show "f_file_name_image fr =
              os_path_join path [scene, ''color'', fmt_08d frame_id @ ''.jpg'']"
        by (rule p)
      show "f_file_name_image fr =
              (if path = [] \<or> last path = CHR ''/'' then path else path @ ''/'') @
              scene @ ''/color/'' @ fmt_08d frame_id @ ''.jpg''"
        if "scene \<noteq> [] \<and> hd scene \<noteq> CHR ''/'' \<and> last scene \<noteq> CHR ''/''"
      proof -
        from that have a: "scene \<noteq> []" "hd scene \<noteq> CHR ''/''" "last scene \<noteq> CHR ''/''"
          by simp_all
        show ?thesis unfolding p by (rule expand [OF a])
      qed
      show "py_int (fmt_08d frame_id) = Some frame_id"
        using bound by (rule fmt_08d_roundtrip)
      show "fmt_08d frame_id = spec_zero_pad8 (nat frame_id)" if "0 \<le> frame_id"
        using fmt_08d_padded [OF that] by blast
      show "list_all is_digit (fmt_08d frame_id)" if "0 \<le> frame_id"
        using fmt_08d_padded [OF that] by blast
      show "length (fmt_08d frame_id) = 8" if "0 \<le> frame_id \<and> frame_id < 10 ^ 8"
        using that fmt_08d_padded [of frame_id] by blast
    qed
  qed
  with names those_map_Some [OF ids] wr show ?thesis
    by (intro exI [of _ names] exI [of _ ids] exI [of _ frs]) simp
qed

text \<open>The example scene \<^verbatim>\<open>s\<close> under the source root \<^verbatim>\<open>data\<close>.\<close>

theorem sample_image_path_witness:
  "fst (prepare_sample_scene example_env ''s'' ''data'' ''meta'' 2 w0) = Inr () \<and>
   fs_dirs example_env (color_dir ''data'' ''s'') =
     Some [''00000002.jpg'', ''00000000.jpg'', ''00000001.jpg''] \<and>
   filter (has_finite_pose example_env ''s'' ''data'') (sort [2, 0, 1]) = [0, 2] \<and>
   map f_file_name_image s_sample_frames =
     map (\<lambda>frame_id. ''data/s/color/'' @ fmt_08d frame_id @ ''.jpg'') [0, 2] \<and>
   fmt_08d 0 = ''00000000'' \<and> fmt_08d 2 = ''00000002''"
proof -
  have dir: "fs_dirs example_env (color_dir ''data'' ''s'') =
     Some [''00000002.jpg'', ''00000000.jpg'', ''00000001.jpg'']"
    by (simp add: example_env_def os_path_join_def join_step_def)
  have ids: "map frame_id_of [''00000002.jpg'', ''00000000.jpg'', ''00000001.jpg'']
               = map Some [2, 0, 1]"
    by (simp add: example_frame_ids)
  have kept: "filter (has_finite_pose example_env ''s'' ''data'') (sort [2, 0, 1]) = [0, 2]"
    by (simp add: has_finite_pose_def example_simps)
  from sample_image_path [OF example_sample_run] obtain names ids' frs where
    a: "fs_dirs example_env (color_dir ''data'' ''s'') = Some names"
      "map frame_id_of names = map Some ids'"
      "[''meta/s/info.json'' \<mapsto> sample_data ''data'' ''s'' s_sample_frames]
         (info_file ''meta'' ''s'') = Some (sample_data ''data'' ''s'' frs)"
    and rel: "list_all2
             (\<lambda>frame_id fr.
                f_file_name_image fr =
                  os_path_join ''data'' [''s'', ''color'', fmt_08d frame_id @ ''.jpg''] \<and>
                (''s'' \<noteq> [] \<and> hd ''s'' \<noteq> CHR ''/'' \<and> last ''s'' \<noteq> CHR ''/'' \<longrightarrow>
                   f_file_name_image fr =
                     (if ''data'' = [] \<or> last ''data'' = CHR ''/'' then ''data'' else ''data'' @ ''/'') @
                     ''s'' @ ''/color/'' @ fmt_08d frame_id @ ''.jpg'') \<and>
                py_int (fmt_08d frame_id) = Some frame_id \<and>
                (0 \<le> frame_id \<longrightarrow>
                   fmt_08d frame_id = spec_zero_pad8 (nat frame_id) \<and>
                   list_all is_digit (fmt_08d frame_id)) \<and>
                (0 \<le> frame_id \<and> frame_id < 10 ^ 8 \<longrightarrow> length (fmt_08d frame_id) = 8))
             (filter (has_finite_pose example_env ''s'' ''data'') (sort ids')) frs"
    by auto
  from a(1) dir have "names = [''00000002.jpg'', ''00000000.jpg'', ''00000001.jpg'']" by simp
  with a(2) ids have "map Some ids' = map Some [2, 0, 1]" by simp
  then have ids': "ids' = [2, 0, 1]" by (simp only: inj_map_eq_map [OF inj_Some])
  from a(3) have frs: "frs = s_sample_frames"
    by (simp add: os_path_join_def join_step_def)
  have "map f_file_name_image frs =
      map (\<lambda>frame_id. ''data/s/color/'' @ fmt_08d frame_id @ ''.jpg'')
        (filter (has_finite_pose example_env ''s'' ''data'') (sort ids'))"
    using rel
    by (rule list_all2_map_eq) (simp add: os_path_join_def join_step_def fmt_08d_hd hd_append)
  with ids' frs kept have "map f_file_name_image s_sample_frames =
     map (\<lambda>frame_id. ''data/s/color/'' @ fmt_08d frame_id @ ''.jpg'') [0, 2]"
    by simp
  with dir kept example_sample_run example_fmt_08d show ?thesis by simp
qed

text \<open>
  C4. Variant A, a scene whose inputs load and whose output directory is writable: the
  function returns and writes a manifest. The identifiers are the entries of
  \<^verbatim>\<open>color/\<close> with the extension cut off, read as integers; the image paths of the
  frames written are those of an ascending list of identifiers, namely the sorted
  identifiers with a finite pose. Variant B, a \<^verbatim>\<open>pose.txt\<close> whose lines all parse:
  the function returns and writes a manifest whose image paths are those of the tokens
  of the lines, in the order of the lines, with the tokens without a finite pose left
  out. A run of either function that returns is such a run, and its manifest is the one
  described.
\<close>

theorem frames_order:
  "(np_loadtxt e (intrinsics_file path scene) = Inr intrinsics \<and>
    fs_dirs e (color_dir path scene) = Some names \<and>
    those (map frame_id_of names) = Some ids \<and>
    (\<forall>frame_id \<in> set ids. \<exists>pose. np_loadtxt e (pose_file path scene frame_id) = Inr pose) \<and>
    can_makedirs e (os_path_join path_meta [scene]) \<and>
    can_open_w e (info_file path_meta scene) \<longrightarrow>
      (\<exists>w' frs kept.
         prepare_sample_scene e scene path path_meta verbose w = (Inr (), w') \<and>
         written w' (info_file path_meta scene) = Some (sample_data path scene frs) \<and>
         map f_file_name_image frs =
           map (\<lambda>frame_id. color_file path scene (fmt_08d frame_id @ ''.jpg'')) kept \<and>
         kept = filter (has_finite_pose e scene path) (sort ids) \<and>
         sorted kept)) \<and>
   (fs_files e (pose_file_B path scene) = Some body \<and>
    map (pose_line e) (readlines body) = map Inr entries \<and>
    can_makedirs e (os_path_join path_meta [scene]) \<and>
    can_open_w e (info_file path_meta scene) \<longrightarrow>
      (\<exists>w' frs kept.
         prepare_test_scene e scene path path_meta verbose w = (Inr (), w') \<and>
         written w' (info_file path_meta scene) = Some (sample_data path scene frs) \<and>
         map f_file_name_image frs = map (color_file path scene) kept \<and>
         kept = filter (has_finite_token_pose entries)
                  (map (\<lambda>line. hd (split_sep CHR '' '' (strip_nl line))) (readlines body)) \<and>
         subseq kept (map (\<lambda>line. hd (split_sep CHR '' '' (strip_nl line))) (readlines body)))) \<and>
   (prepare_sample_scene e scene path path_meta verbose w = (Inr u, wA) \<longrightarrow>
      (\<exists>names ids frs kept.
         fs_dirs e (color_dir path scene) = Some names \<and>
         map frame_id_of names = map Some ids \<and>
         written wA (info_file path_meta scene) = Some (sample_data path scene frs) \<and>
         map f_file_name_image frs =
           map (\<lambda>frame_id. color_file path scene (fmt_08d frame_id @ ''.jpg'')) kept \<and>
         kept = filter (has_finite_pose e scene path) (sort ids) \<and>
         sorted kept)) \<and>
   (prepare_test_scene e scene path path_meta verbose w = (Inr u, wB) \<longrightarrow>
      (\<exists>body entries frs kept.
         fs_files e (pose_file_B path scene) = Some body \<and>
         map (pose_line e) (readlines body) = map Inr entries \<and>
         written wB (info_file path_meta scene) = Some (sample_data path scene frs) \<and>
         map f_file_name_image frs = map (color_file path scene) kept \<and>
         kept = filter (has_finite_token_pose entries)
                  (map (\<lambda>line. hd (split_sep CHR '' '' (strip_nl line))) (readlines body)) \<and>
         subseq kept (map (\<lambda>line. hd (split_sep CHR '' '' (strip_nl line))) (readlines body))))"
proof -
  have A: "\<exists>names ids frs kept.
         fs_dirs e (color_dir path scene) = Some names \<and>
         those (map frame_id_of names) = Some ids \<and>
         written wA (info_file path_meta scene) = Some (sample_data path scene frs) \<and>
         map f_file_name_image frs =
           map (\<lambda>frame_id. color_file path scene (fmt_08d frame_id @ ''.jpg'')) kept \<and>
         kept = filter (has_finite_pose e scene path) (sort ids) \<and>
         sorted kept"
    if run: "prepare_sample_scene e scene path path_meta verbose w = (Inr u, wA)" for u wA
  proof -
    from prepare_sample_scene_Inr [OF run] obtain intrinsics names ids frs where
      names: "fs_dirs e (color_dir path scene) = Some names"
      and ids: "those (map frame_id_of names) = Some ids"
      and frs: "list_all2 (sample_frame_ok e scene path intrinsics)
                  (filter (has_finite_pose e scene path) (sort ids)) frs"
      and wr: "written wA = (written w)(info_file path_meta scene \<mapsto> sample_data path scene frs)"
      by blast
    let ?kept = "filter (has_finite_pose e scene path) (sort ids)"
    have paths: "map f_file_name_image frs =
        map (\<lambda>frame_id. color_file path scene (fmt_08d frame_id @ ''.jpg'')) ?kept"
      using frs by (rule list_all2_map_eq) (simp add: sample_frame_ok_def)
    have "sorted ?kept"
      by (rule sorted_wrt_filter) simp
    with names ids wr paths show ?thesis
      by (intro exI [of _ names] exI [of _ ids] exI [of _ frs] exI [of _ ?kept]) simp
  qed
  have B: "\<exists>body entries frs kept.
         fs_files e (pose_file_B path scene) = Some body \<and>
         map (pose_line e) (readlines body) = map Inr entries \<and>
         written wB (info_file path_meta scene) = Some (sample_data path scene frs) \<and>
         map f_file_name_image frs = map (color_file path scene) kept \<and>
         kept = filter (has_finite_token_pose entries)
                  (map (\<lambda>line. hd (split_sep CHR '' '' (strip_nl line))) (readlines body)) \<and>
         subseq kept (map (\<lambda>line. hd (split_sep CHR '' '' (strip_nl line))) (readlines body))"
    if run: "prepare_test_scene e scene path path_meta verbose w = (Inr u, wB)" for u wB
  proof -
    from prepare_test_scene_Inr [OF run] obtain body entries frs where
      src: "fs_files e (pose_file_B path scene) = Some body"
      and en: "map (pose_line e) (readlines body) = map Inr entries"
      and frs: "list_all2 (test_frame_ok scene path entries)
                  (filter (has_finite_token_pose entries) (map fst entries)) frs"
      and wr: "written wB = (written w)(info_file path_meta scene \<mapsto> sample_data path scene frs)"
      by blast
    let ?tokens = "map (\<lambda>line. hd (split_sep CHR '' '' (strip_nl line))) (readlines body)"
    let ?kept = "filter (has_finite_token_pose entries) ?tokens"
    have toks: "map fst entries = ?tokens"
      by (rule pose_line_tokens [OF en])
    have paths: "map f_file_name_image frs = map (color_file path scene) ?kept"
      using frs unfolding toks by (rule list_all2_map_eq) (simp add: test_frame_ok_def)
    have "subseq ?kept ?tokens" by simp
    with src en wr paths show ?thesis
      by (intro exI [of _ body] exI [of _ entries] exI [of _ frs] exI [of _ ?kept]) simp
  qed
  have A_total: "\<exists>w' frs kept.
         prepare_sample_scene e scene path path_meta verbose w = (Inr (), w') \<and>
         written w' (info_file path_meta scene) = Some (sample_data path scene frs) \<and>
         map f_file_name_image frs =
           map (\<lambda>frame_id. color_file path scene (fmt_08d frame_id @ ''.jpg'')) kept \<and>
         kept = filter (has_finite_pose e scene path) (sort ids) \<and>
         sorted kept"
    if intr: "np_loadtxt e (intrinsics_file path scene) = Inr intrinsics"
      and names: "fs_dirs e (color_dir path scene) = Some names"
      and ids: "those (map frame_id_of names) = Some ids"
      and loads: "\<forall>frame_id \<in> set ids. \<exists>pose. np_loadtxt e (pose_file path scene frame_id) = Inr pose"
      and mk: "can_makedirs e (os_path_join path_meta [scene])"
      and op: "can_open_w e (info_file path_meta scene)"
  proof -
    from prepare_sample_scene_total [OF intr names ids loads mk op] obtain w' where
      run: "prepare_sample_scene e scene path path_meta verbose w = (Inr (), w')"
      by blast
    from A [OF run] names ids show ?thesis
      using run by auto
  qed
  have B_total: "\<exists>w' frs kept.
         prepare_test_scene e scene path path_meta verbose w = (Inr (), w') \<and>
         written w' (info_file path_meta scene) = Some (sample_data path scene frs) \<and>
         map f_file_name_image frs = map (color_file path scene) kept \<and>
         kept = filter (has_finite_token_pose entries)
                  (map (\<lambda>line. hd (split_sep CHR '' '' (strip_nl line))) (readlines body)) \<and>
         subseq kept (map (\<lambda>line. hd (split_sep CHR '' '' (strip_nl line))) (readlines body))"
    if src: "fs_files e (pose_file_B path scene) = Some body"
      and en: "map (pose_line e) (readlines body) = map Inr entries"
      and mk: "can_makedirs e (os_path_join path_meta [scene])"
      and op: "can_open_w e (info_file path_meta scene)"
  proof -
    from prepare_test_scene_total [OF src en mk op] obtain w' where
      run: "prepare_test_scene e scene path path_meta verbose w = (Inr (), w')"
      by blast
    from B [OF run] src obtain entries' frs kept where
      b: "map (pose_line e) (readlines body) = map Inr entries'"
        "written w' (info_file path_meta scene) = Some (sample_data path scene frs)"
        "map f_file_name_image frs = map (color_file path scene) kept"
        "kept = filter (has_finite_token_pose entries')
                  (map (\<lambda>line. hd (split_sep CHR '' '' (strip_nl line))) (readlines body))"
        "subseq kept (map (\<lambda>line. hd (split_sep CHR '' '' (strip_nl line))) (readlines body))"
      by auto
    from b(1) en have "map Inr entries' = (map Inr entries :: (error + entry) list)" by simp
    then have "entries' = entries" by (simp only: inj_map_eq_map [OF inj_Inr])
    with run b show ?thesis by blast
  qed
  show ?thesis
  proof (intro conjI impI; (elim conjE)?)
    assume "np_loadtxt e (intrinsics_file path scene) = Inr intrinsics"
      "fs_dirs e (color_dir path scene) = Some names"
      "those (map frame_id_of names) = Some ids"
      "\<forall>frame_id \<in> set ids. \<exists>pose. np_loadtxt e (pose_file path scene frame_id) = Inr pose"
      "can_makedirs e (os_path_join path_meta [scene])"
      "can_open_w e (info_file path_meta scene)"
    then show "\<exists>w' frs kept.
         prepare_sample_scene e scene path path_meta verbose w = (Inr (), w') \<and>
         written w' (info_file path_meta scene) = Some (sample_data path scene frs) \<and>
         map f_file_name_image frs =
           map (\<lambda>frame_id. color_file path scene (fmt_08d frame_id @ ''.jpg'')) kept \<and>
         kept = filter (has_finite_pose e scene path) (sort ids) \<and>
         sorted kept"
      by (rule A_total)
  next
    assume "fs_files e (pose_file_B path scene) = Some body"
      "map (pose_line e) (readlines body) = map Inr entries"
      "can_makedirs e (os_path_join path_meta [scene])"
      "can_open_w e (info_file path_meta scene)"
    then show "\<exists>w' frs kept.
         prepare_test_scene e scene path path_meta verbose w = (Inr (), w') \<and>
         written w' (info_file path_meta scene) = Some (sample_data path scene frs) \<and>
         map f_file_name_image frs = map (color_file path scene) kept \<and>
         kept = filter (has_finite_token_pose entries)
                  (map (\<lambda>line. hd (split_sep CHR '' '' (strip_nl line))) (readlines body)) \<and>
         subseq kept (map (\<lambda>line. hd (split_sep CHR '' '' (strip_nl line))) (readlines body))"
      by (rule B_total)
  next
    assume "prepare_sample_scene e scene path path_meta verbose w = (Inr u, wA)"
    from A [OF this] obtain names ids frs kept where
      "fs_dirs e (color_dir path scene) = Some names"
      "those (map frame_id_of names) = Some ids"
      "written wA (info_file path_meta scene) = Some (sample_data path scene frs)"
      "map f_file_name_image frs =
           map (\<lambda>frame_id. color_file path scene (fmt_08d frame_id @ ''.jpg'')) kept"
      "kept = filter (has_finite_pose e scene path) (sort ids)" "sorted kept"
      by blast
    with those_map_Some [of frame_id_of names ids]
    show "\<exists>names ids frs kept.
         fs_dirs e (color_dir path scene) = Some names \<and>
         map frame_id_of names = map Some ids \<and>
         written wA (info_file path_meta scene) = Some (sample_data path scene frs) \<and>
         map f_file_name_image frs =
           map (\<lambda>frame_id. color_file path scene (fmt_08d frame_id @ ''.jpg'')) kept \<and>
         kept = filter (has_finite_pose e scene path) (sort ids) \<and>
         sorted kept"
      by blast
  next
    assume "prepare_test_scene e scene path path_meta verbose w = (Inr u, wB)"
    then show "\<exists>body entries frs kept.
         fs_files e (pose_file_B path scene) = Some body \<and>
         map (pose_line e) (readlines body) = map Inr entries \<and>
         written wB (info_file path_meta scene) = Some (sample_data path scene frs) \<and>
         map f_file_name_image frs = map (color_file path scene) kept \<and>
         kept = filter (has_finite_token_pose entries)
                  (map (\<lambda>line. hd (split_sep CHR '' '' (strip_nl line))) (readlines body)) \<and>
         subseq kept (map (\<lambda>line. hd (split_sep CHR '' '' (strip_nl line))) (readlines body))"
      by (rule B)
  qed
qed

text \<open>
  In the example \<^verbatim>\<open>os.listdir\<close> returns the frames 2, 0, 1, all three pose files
  load, and \<^verbatim>\<open>prepare_sample_scene\<close> writes the frames 0 and 2 in this order. The
  lines of \<^verbatim>\<open>pose.txt\<close> bear \<^verbatim>\<open>f1\<close>, \<^verbatim>\<open>f2\<close>, \<^verbatim>\<open>f1\<close>, and
  \<^verbatim>\<open>prepare_test_scene\<close> writes \<^verbatim>\<open>f1\<close>, \<^verbatim>\<open>f1\<close>.
\<close>

theorem frames_order_witness:
  "np_loadtxt example_env (intrinsics_file ''data'' ''s'') = Inr (Arr2 I3) \<and>
   fs_dirs example_env (color_dir ''data'' ''s'') =
     Some [''00000002.jpg'', ''00000000.jpg'', ''00000001.jpg''] \<and>
   those (map frame_id_of [''00000002.jpg'', ''00000000.jpg'', ''00000001.jpg'']) = Some [2, 0, 1] \<and>
   map (\<lambda>frame_id. np_loadtxt example_env (pose_file ''data'' ''s'' frame_id)) [2, 0, 1] =
     [Inr (Arr2 (shift (Fin 2))), Inr (Arr2 I4), Inr (Arr2 (shift NaN))] \<and>
   filter (has_finite_pose example_env ''s'' ''data'') (sort [2, 0, 1]) = [0, 2] \<and>
   fs_files example_env (pose_file_B ''data'' ''s'') = Some s_pose_txt \<and>
   map (pose_line example_env) (readlines s_pose_txt) = map Inr s_entries \<and>
   map (\<lambda>line. hd (split_sep CHR '' '' (strip_nl line))) (readlines s_pose_txt)
     = [''f1'', ''f2'', ''f1''] \<and>
   filter (has_finite_token_pose s_entries) [''f1'', ''f2'', ''f1''] = [''f1'', ''f1''] \<and>
   (\<exists>w' frs.
      prepare_sample_scene example_env ''s'' ''data'' ''meta'' 2 w0 = (Inr (), w') \<and>
      written w' ''meta/s/info.json'' = Some (sample_data ''data'' ''s'' frs) \<and>
      map f_file_name_image frs = [''data/s/color/00000000.jpg'', ''data/s/color/00000002.jpg'']) \<and>
   (\<exists>w' frs.
      prepare_test_scene example_env ''s'' ''data'' ''meta'' 2 w0 = (Inr (), w') \<and>
      written w' ''meta/s/info.json'' = Some (sample_data ''data'' ''s'' frs) \<and>
      map f_file_name_image frs = [''data/s/color/f1'', ''data/s/color/f1'']) \<and>
   prepare_sample_scene example_env ''s'' ''data'' ''meta'' 2 w0 =
     (Inr (), \<lparr>stdout = [''preparing s'', ''preparing s frame 0/3''],
               written = [''meta/s/info.json'' \<mapsto> sample_data ''data'' ''s'' s_sample_frames]\<rparr>) \<and>
   prepare_test_scene example_env ''s'' ''data'' ''meta'' 2 w0 =
     (Inr (), \<lparr>stdout = [''preparing s'', ''preparing s frame 0/3''],
               written = [''meta/s/info.json'' \<mapsto> sample_data ''data'' ''s'' s_test_frames]\<rparr>) \<and>
   map f_file_name_image s_sample_frames =
     [''data/s/color/00000000.jpg'', ''data/s/color/00000002.jpg''] \<and>
   map f_file_name_image s_test_frames = [''data/s/color/f1'', ''data/s/color/f1'']"
proof -
  note inst = frames_order [of example_env "''data''" "''s''" "Arr2 I3"
      "[''00000002.jpg'', ''00000000.jpg'', ''00000001.jpg'']" "[2, 0, 1]" "''meta''" 2 w0
      s_pose_txt s_entries]
  have intr: "np_loadtxt example_env (intrinsics_file ''data'' ''s'') = Inr (Arr2 I3)"
    by (simp add: example_simps)
  have dir: "fs_dirs example_env (color_dir ''data'' ''s'') =
     Some [''00000002.jpg'', ''00000000.jpg'', ''00000001.jpg'']"
    by (simp add: example_env_def os_path_join_def join_step_def)
  have ids: "those (map frame_id_of [''00000002.jpg'', ''00000000.jpg'', ''00000001.jpg''])
               = Some [2, 0, 1]"
    by (simp add: example_frame_ids)
  have poses: "map (\<lambda>frame_id. np_loadtxt example_env (pose_file ''data'' ''s'' frame_id)) [2, 0, 1] =
     [Inr (Arr2 (shift (Fin 2))), Inr (Arr2 I4), Inr (Arr2 (shift NaN))]"
    by (simp add: example_simps)
  then have loads: "\<forall>frame_id \<in> set [2, 0, 1].
      \<exists>pose. np_loadtxt example_env (pose_file ''data'' ''s'' frame_id) = Inr pose"
    by simp
  have mk: "can_makedirs example_env (os_path_join ''meta'' [''s''])"
    and op: "can_open_w example_env (info_file ''meta'' ''s'')"
    by (simp_all add: example_env_def)
  have keptA: "filter (has_finite_pose example_env ''s'' ''data'') (sort [2, 0, 1]) = [0, 2]"
    by (simp add: has_finite_pose_def example_simps)
  have src: "fs_files example_env (pose_file_B ''data'' ''s'') = Some s_pose_txt"
    by (simp add: example_env_def os_path_join_def join_step_def)
  have toks: "map (\<lambda>line. hd (split_sep CHR '' '' (strip_nl line))) (readlines s_pose_txt)
     = [''f1'', ''f2'', ''f1'']"
    by (simp add: s_pose_txt_def strip_nl_def strip_chars_def)
  have keptB: "filter (has_finite_token_pose s_entries) [''f1'', ''f2'', ''f1''] = [''f1'', ''f1'']"
    by (simp add: has_finite_token_pose_def token_pose_def s_entries_def shift_def)
  have p: "info_file ''meta'' ''s'' = ''meta/s/info.json''"
    by (simp add: os_path_join_def join_step_def)
  from inst [THEN conjunct1, THEN mp, OF conjI, OF intr conjI, OF dir conjI, OF ids conjI,
      OF loads conjI, OF mk op]
  obtain wA frsA where
    a: "prepare_sample_scene example_env ''s'' ''data'' ''meta'' 2 w0 = (Inr (), wA)"
      "written wA (info_file ''meta'' ''s'') = Some (sample_data ''data'' ''s'' frsA)"
      "map f_file_name_image frsA =
         map (\<lambda>frame_id. color_file ''data'' ''s'' (fmt_08d frame_id @ ''.jpg''))
           (filter (has_finite_pose example_env ''s'' ''data'') (sort [2, 0, 1]))"
    by blast
  from a(3) have pathsA: "map f_file_name_image frsA =
      [''data/s/color/00000000.jpg'', ''data/s/color/00000002.jpg'']"
    unfolding keptA by (simp add: os_path_join_def join_step_def example_fmt_08d)
  have A: "\<exists>w' frs.
      prepare_sample_scene example_env ''s'' ''data'' ''meta'' 2 w0 = (Inr (), w') \<and>
      written w' ''meta/s/info.json'' = Some (sample_data ''data'' ''s'' frs) \<and>
      map f_file_name_image frs = [''data/s/color/00000000.jpg'', ''data/s/color/00000002.jpg'']"
  proof (intro exI conjI)
    show "prepare_sample_scene example_env ''s'' ''data'' ''meta'' 2 w0 = (Inr (), wA)"
      by (rule a(1))
    show "written wA ''meta/s/info.json'' = Some (sample_data ''data'' ''s'' frsA)"
      using a(2) unfolding p .
    show "map f_file_name_image frsA =
        [''data/s/color/00000000.jpg'', ''data/s/color/00000002.jpg'']"
      by (rule pathsA)
  qed
  from inst [THEN conjunct2, THEN conjunct1, THEN mp, OF conjI, OF src conjI,
      OF example_pose_lines conjI, OF mk op]
  obtain wB frsB where
    b: "prepare_test_scene example_env ''s'' ''data'' ''meta'' 2 w0 = (Inr (), wB)"
      "written wB (info_file ''meta'' ''s'') = Some (sample_data ''data'' ''s'' frsB)"
      "map f_file_name_image frsB = map (color_file ''data'' ''s'')
         (filter (has_finite_token_pose s_entries)
            (map (\<lambda>line. hd (split_sep CHR '' '' (strip_nl line))) (readlines s_pose_txt)))"
    by blast
  from b(3) have pathsB: "map f_file_name_image frsB = [''data/s/color/f1'', ''data/s/color/f1'']"
    unfolding toks keptB by (simp add: os_path_join_def join_step_def)
  have B: "\<exists>w' frs.
      prepare_test_scene example_env ''s'' ''data'' ''meta'' 2 w0 = (Inr (), w') \<and>
      written w' ''meta/s/info.json'' = Some (sample_data ''data'' ''s'' frs) \<and>
      map f_file_name_image frs = [''data/s/color/f1'', ''data/s/color/f1'']"
  proof (intro exI conjI)
    show "prepare_test_scene example_env ''s'' ''data'' ''meta'' 2 w0 = (Inr (), wB)"
      by (rule b(1))
    show "written wB ''meta/s/info.json'' = Some (sample_data ''data'' ''s'' frsB)"
      using b(2) unfolding p .
    show "map f_file_name_image frsB = [''data/s/color/f1'', ''data/s/color/f1'']"
      by (rule pathsB)
  qed
  have fA: "map f_file_name_image s_sample_frames =
     [''data/s/color/00000000.jpg'', ''data/s/color/00000002.jpg'']"
  proof -
    have eq: "frsA = s_sample_frames"
      using a(1,2) example_sample_run unfolding p by auto
    show ?thesis using pathsA unfolding eq .
  qed
  have fB: "map f_file_name_image s_test_frames = [''data/s/color/f1'', ''data/s/color/f1'']"
  proof -
    have eq: "frsB = s_test_frames"
      using b(1,2) example_test_run unfolding p by auto
    show ?thesis using pathsB unfolding eq .
  qed
  from intr dir ids poses keptA src example_pose_lines toks keptB A B
    example_sample_run example_test_run fA fB
  show ?thesis
    by (intro conjI)
qed



text \<open>
  C6, as the specification words it, fails: the lines are not tokenised at whitespace,
  they are split at every single space. The line of the example scene \<^verbatim>\<open>lead\<close>
  starts with a space and has 21 whitespace tokens, all numbers; the split gives 22
  fields, the first one empty, and the function returns without error, writing one
  frame whose token is the empty string.
\<close>

theorem whitespace_tokens_counterexample:
  "length (spec_whitespace_tokens lead_line) = 21 \<and>
   fs_files example_env (pose_file_B ''data'' ''lead'') = Some lead_line \<and>
   readlines lead_line = [lead_line] \<and>
   length (split_sep CHR '' '' (strip_nl lead_line)) = 22 \<and>
   pose_line example_env lead_line = Inr ([], Arr2 I3, Arr2 I4) \<and>
   fst (prepare_test_scene example_env ''lead'' ''data'' ''meta'' 0 w0) = Inr () \<and>
   written (snd (prepare_test_scene example_env ''lead'' ''data'' ''meta'' 0 w0))
       ''meta/lead/info.json'' =
     Some (sample_data ''data'' ''lead''
       [\<lparr>f_file_name_image = ''data/lead/color/'', f_intrinsics = Arr2 I3, f_pose = Arr2 I4\<rparr>])"
proof -
  have 1: "length (spec_whitespace_tokens lead_line) = 21"
    by (simp add: spec_whitespace_tokens_def lead_line_def is_space_def)
  have 2: "fs_files example_env (pose_file_B ''data'' ''lead'') = Some lead_line"
    by (simp add: example_simps)
  have 3: "readlines lead_line = [lead_line]"
    by (simp add: lead_line_def)
  have 4: "length (split_sep CHR '' '' (strip_nl lead_line)) = 22"
    by (simp add: lead_line_def strip_nl_def strip_chars_def)
  have 5: "pose_line example_env lead_line = Inr ([], Arr2 I3, Arr2 I4)"
    by (simp add: pose_line_def lead_line_def strip_nl_def strip_chars_def slice_def
        np_array_reshape_def example_simps)
  have 6: "prepare_test_scene example_env ''lead'' ''data'' ''meta'' 0 w0 =
      (Inr (), \<lparr>stdout = [], written = [''meta/lead/info.json'' \<mapsto> sample_data ''data'' ''lead''
       [\<lparr>f_file_name_image = ''data/lead/color/'', f_intrinsics = Arr2 I3, f_pose = Arr2 I4\<rparr>]]\<rparr>)"
    by (simp add: prepare_test_scene_def lead_line_def pose_line_def strip_nl_def
        strip_chars_def slice_def np_array_reshape_def example_simps)
  from 1 2 3 4 5 show ?thesis unfolding 6 by simp
qed

text \<open>
  C6, amended to what the code does. Every line is split at each single space
  (\<^verbatim>\<open>line.split(" ")\<close>, after the newline is stripped). A line that gives fewer than
  22 fields, or one of whose fields 1 to 21 is rejected by the float conversion, makes
  the loop raise \<^verbatim>\<open>ValueError\<close>: the line is not skipped, the function returns that
  error, and nothing is written.
\<close>

theorem short_or_nonnumeric_line_fatal:
  assumes "fs_files e (pose_file_B path scene) = Some body"
    and "line \<in> set (readlines body)"
    and "length (split_sep CHR '' '' (strip_nl line)) < 22 \<or>
         (\<exists>k. 1 \<le> k \<and> k \<le> 21 \<and> k < length (split_sep CHR '' '' (strip_nl line)) \<and>
              np_float32 e (split_sep CHR '' '' (strip_nl line) ! k) = None)"
  shows "pose_line e line = Inl ValueError \<and>
         (\<exists>w'. prepare_test_scene e scene path path_meta verbose w = (Inl ValueError, w') \<and>
               written w' = written w)"
proof -
  have line: "pose_line e line = Inl ValueError"
  proof (cases "pose_line e line")
    case (Inl err)
    with pose_line_Inl show ?thesis by blast
  next
    case (Inr r)
    from pose_line_Inr_fields [OF this] assms(3) have False by auto
    then show ?thesis ..
  qed
  from read_pose_table_fails [OF assms(2) line] obtain err where
    "test_table e body = Inl err" by blast
  with read_pose_table_Inl have tb: "test_table e body = Inl ValueError" by blast
  obtain r w' where run: "prepare_test_scene e scene path path_meta verbose w = (r, w')"
    by (cases "prepare_test_scene e scene path path_meta verbose w")
  with assms(1) tb have "r = Inl ValueError"
    by (auto simp: prepare_test_scene_def Let_def)
  with run prepare_test_scene_Inl line show ?thesis by blast
qed

text \<open>The example scene \<^verbatim>\<open>bad\<close>: a line with three fields.\<close>

theorem short_or_nonnumeric_line_fatal_witness:
  "fs_files example_env (pose_file_B ''data'' ''bad'') = Some ''f1 1 0\<newline>'' \<and>
   readlines ''f1 1 0\<newline>'' = [''f1 1 0\<newline>''] \<and>
   split_sep CHR '' '' (strip_nl ''f1 1 0\<newline>'') = [''f1'', ''1'', ''0''] \<and>
   pose_line example_env ''f1 1 0\<newline>'' = Inl ValueError \<and>
   fst (prepare_test_scene example_env ''bad'' ''data'' ''meta'' 2 w0) = Inl ValueError \<and>
   written (snd (prepare_test_scene example_env ''bad'' ''data'' ''meta'' 2 w0)) = written w0"
proof -
  have src: "fs_files example_env (pose_file_B ''data'' ''bad'') = Some ''f1 1 0\<newline>''"
    by (simp add: example_simps)
  have ls: "readlines ''f1 1 0\<newline>'' = [''f1 1 0\<newline>'']"
    by simp
  have sp: "split_sep CHR '' '' (strip_nl ''f1 1 0\<newline>'') = [''f1'', ''1'', ''0'']"
    by (simp add: strip_nl_def strip_chars_def)
  have mem: "''f1 1 0\<newline>'' \<in> set (readlines ''f1 1 0\<newline>'')"
    by (simp only: ls) simp
  have short: "length (split_sep CHR '' '' (strip_nl ''f1 1 0\<newline>'')) < 22 \<or>
         (\<exists>k. 1 \<le> k \<and> k \<le> 21 \<and> k < length (split_sep CHR '' '' (strip_nl ''f1 1 0\<newline>'')) \<and>
              np_float32 example_env (split_sep CHR '' '' (strip_nl ''f1 1 0\<newline>'') ! k) = None)"
    by (simp only: sp) simp
  from short_or_nonnumeric_line_fatal [OF src mem short, of "''meta''" 2 w0]
  obtain w' where
    "pose_line example_env ''f1 1 0\<newline>'' = Inl ValueError"
    "prepare_test_scene example_env ''bad'' ''data'' ''meta'' 2 w0 = (Inl ValueError, w')"
    "written w' = written w0"
    by blast
  with src ls sp show ?thesis by simp
qed

text \<open>
  C7. Variant B, a line whose fields are a token followed by 21 strings that convert to
  the identity intrinsics, the identity rotation and the zero translation: the loop body
  yields the token, the 3 by 3 identity as intrinsics, and as pose the rows of
  \<open>[R | t]\<close> followed by \<open>[0, 0, 0, 1]\<close>, which here is the 4 by 4 identity.
\<close>

theorem identity_line_fields:
  assumes "split_sep CHR '' '' (strip_nl line) = tok # ws"
    and "map (np_float32 e) ws = map Some
           [Fin 1, Fin 0, Fin 0, Fin 0, Fin 1, Fin 0, Fin 0, Fin 0, Fin 1,
            Fin 1, Fin 0, Fin 0, Fin 0, Fin 1, Fin 0, Fin 0, Fin 0, Fin 1,
            Fin 0, Fin 0, Fin 0]"
  shows "pose_line e line = Inr (tok, Arr2 I3, Arr2 I4)"
proof -
  let ?vals = "[Fin 1, Fin 0, Fin 0, Fin 0, Fin 1, Fin 0, Fin 0, Fin 0, Fin 1,
            Fin 1, Fin 0, Fin 0, Fin 0, Fin 1, Fin 0, Fin 0, Fin 0, Fin 1,
            Fin 0, Fin 0, Fin 0]"
  have k: "map (np_float32 e) (slice 1 10 (tok # ws)) = map Some (take 9 ?vals)"
    using arg_cong [OF assms(2), of "take 9"] by (simp add: slice_def take_map)
  have r: "map (np_float32 e) (slice 10 19 (tok # ws)) = map Some (take 9 (drop 9 ?vals))"
    using arg_cong [OF assms(2), of "\<lambda>xs. take 9 (drop 9 xs)"]
    by (simp add: slice_def take_map drop_map)
  have t: "map (np_float32 e) (slice 19 22 (tok # ws)) = map Some (drop 18 ?vals)"
    using arg_cong [OF assms(2), of "\<lambda>xs. take 3 (drop 18 xs)"]
    by (simp add: slice_def take_map drop_map)
  have K: "np_array_reshape e (slice 1 10 (tok # ws)) 3 3 = Inr I3"
    unfolding np_array_reshape_def k those_map_Some_id by (simp add: I3_def)
  have R: "np_array_reshape e (slice 10 19 (tok # ws)) 3 3 = Inr I3"
    unfolding np_array_reshape_def r those_map_Some_id by (simp add: I3_def)
  have T: "np_array_reshape e (slice 19 22 (tok # ws)) 3 1 = Inr [[Fin 0], [Fin 0], [Fin 0]]"
    unfolding np_array_reshape_def t those_map_Some_id by simp
  show ?thesis
    unfolding pose_line_def Let_def assms(1) K R T by (simp add: I3_def I4_def)
qed

text \<open>The line of the specification, with the conversions of \<^verbatim>\<open>0\<close> and \<^verbatim>\<open>1\<close>.\<close>

theorem identity_line_fields_witness:
  "split_sep CHR '' '' (strip_nl ''f1 1 0 0 0 1 0 0 0 1 1 0 0 0 1 0 0 0 1 0 0 0'') =
     ''f1'' # [''1'', ''0'', ''0'', ''0'', ''1'', ''0'', ''0'', ''0'', ''1'',
               ''1'', ''0'', ''0'', ''0'', ''1'', ''0'', ''0'', ''0'', ''1'',
               ''0'', ''0'', ''0''] \<and>
   np_float32 example_env ''1'' = Some (Fin 1) \<and>
   np_float32 example_env ''0'' = Some (Fin 0) \<and>
   pose_line example_env ''f1 1 0 0 0 1 0 0 0 1 1 0 0 0 1 0 0 0 1 0 0 0''
     = Inr (''f1'', Arr2 I3, Arr2 I4)"
proof -
  have sp: "split_sep CHR '' '' (strip_nl ''f1 1 0 0 0 1 0 0 0 1 1 0 0 0 1 0 0 0 1 0 0 0'') =
     ''f1'' # [''1'', ''0'', ''0'', ''0'', ''1'', ''0'', ''0'', ''0'', ''1'',
               ''1'', ''0'', ''0'', ''0'', ''1'', ''0'', ''0'', ''0'', ''1'',
               ''0'', ''0'', ''0'']"
    by (simp add: strip_nl_def strip_chars_def)
  have one: "np_float32 example_env ''1'' = Some (Fin 1)"
    and zero: "np_float32 example_env ''0'' = Some (Fin 0)"
    by (simp_all add: example_env_def)
  have "pose_line example_env ''f1 1 0 0 0 1 0 0 0 1 1 0 0 0 1 0 0 0 1 0 0 0''
     = Inr (''f1'', Arr2 I3, Arr2 I4)"
    by (rule identity_line_fields [OF sp]) (simp add: one zero)
  with sp one zero show ?thesis by simp
qed

text \<open>
  C8. A scene whose inputs all load and parse, whose output directory is writable and
  in which no frame has a finite pose (in particular a scene with no frame at all):
  both functions return without error and write a manifest with the fields
  \<^verbatim>\<open>dataset\<close>, \<^verbatim>\<open>path\<close> and \<^verbatim>\<open>scene\<close> set and an empty list of frames.
\<close>

theorem no_finite_pose_empty_manifest:
  "(np_loadtxt e (intrinsics_file path scene) = Inr intrinsics \<and>
    fs_dirs e (color_dir path scene) = Some names \<and>
    those (map frame_id_of names) = Some ids \<and>
    (\<forall>frame_id \<in> set ids. \<exists>pose.
       np_loadtxt e (pose_file path scene frame_id) = Inr pose \<and> \<not> all_isfinite pose) \<and>
    can_makedirs e (os_path_join path_meta [scene]) \<and>
    can_open_w e (info_file path_meta scene) \<longrightarrow>
      (\<exists>w'. prepare_sample_scene e scene path path_meta verbose w = (Inr (), w') \<and>
            written w' (info_file path_meta scene) =
              Some \<lparr>d_dataset = ''sample'', d_path = path, d_scene = scene, d_frames = []\<rparr>)) \<and>
   (fs_files e (pose_file_B path scene) = Some body \<and>
    map (pose_line e) (readlines body) = map Inr entries \<and>
    (\<forall>en \<in> set entries. \<not> all_isfinite (snd (snd en))) \<and>
    can_makedirs e (os_path_join path_meta [scene]) \<and>
    can_open_w e (info_file path_meta scene) \<longrightarrow>
      (\<exists>w'. prepare_test_scene e scene path path_meta verbose w = (Inr (), w') \<and>
            written w' (info_file path_meta scene) =
              Some \<lparr>d_dataset = ''sample'', d_path = path, d_scene = scene, d_frames = []\<rparr>))"
proof (intro conjI impI; elim conjE)
  assume intr: "np_loadtxt e (intrinsics_file path scene) = Inr intrinsics"
    and names: "fs_dirs e (color_dir path scene) = Some names"
    and ids: "those (map frame_id_of names) = Some ids"
    and bad: "\<forall>frame_id \<in> set ids. \<exists>pose.
       np_loadtxt e (pose_file path scene frame_id) = Inr pose \<and> \<not> all_isfinite pose"
    and mk: "can_makedirs e (os_path_join path_meta [scene])"
    and op: "can_open_w e (info_file path_meta scene)"
  from bad have loads:
    "\<forall>frame_id \<in> set ids. \<exists>pose. np_loadtxt e (pose_file path scene frame_id) = Inr pose"
    by blast
  from prepare_sample_scene_total [OF intr names ids loads mk op] obtain w' where
    run: "prepare_sample_scene e scene path path_meta verbose w = (Inr (), w')"
    by blast
  from prepare_sample_scene_Inr [OF run] names ids obtain intrinsics' frs where
    frs: "list_all2 (sample_frame_ok e scene path intrinsics')
            (filter (has_finite_pose e scene path) (sort ids)) frs"
    and wr: "written w' = (written w)(info_file path_meta scene \<mapsto> sample_data path scene frs)"
    by auto
  have "filter (has_finite_pose e scene path) (sort ids) = []"
    using bad by (auto simp: filter_empty_conv has_finite_pose_def)
  with frs have "frs = []" by simp
  with run wr show "\<exists>w'. prepare_sample_scene e scene path path_meta verbose w = (Inr (), w') \<and>
            written w' (info_file path_meta scene) =
              Some \<lparr>d_dataset = ''sample'', d_path = path, d_scene = scene, d_frames = []\<rparr>"
    by simp
next
  assume src: "fs_files e (pose_file_B path scene) = Some body"
    and en: "map (pose_line e) (readlines body) = map Inr entries"
    and bad: "\<forall>en \<in> set entries. \<not> all_isfinite (snd (snd en))"
    and mk: "can_makedirs e (os_path_join path_meta [scene])"
    and op: "can_open_w e (info_file path_meta scene)"
  from prepare_test_scene_total [OF src en mk op] obtain w' where
    run: "prepare_test_scene e scene path path_meta verbose w = (Inr (), w')"
    by blast
  from prepare_test_scene_Inr [OF run] src obtain entries' frs where
    en': "map (pose_line e) (readlines body) = map Inr entries'"
    and frs': "list_all2 (test_frame_ok scene path entries')
                (filter (has_finite_token_pose entries') (map fst entries')) frs"
    and wr: "written w' = (written w)(info_file path_meta scene \<mapsto> sample_data path scene frs)"
    by auto
  from en' en have "map Inr entries' = (map Inr entries :: (error + entry) list)" by simp
  then have same: "entries' = entries" by (simp only: inj_map_eq_map [OF inj_Inr])
  have "\<not> has_finite_token_pose entries tok" for tok
  proof (cases "token_pose entries tok")
    case None
    then show ?thesis by (simp add: has_finite_token_pose_def)
  next
    case (Some P)
    from token_pose_in_set [OF this] obtain K where "(tok, K, P) \<in> set entries" by blast
    with bad have "\<not> all_isfinite P" by force
    with Some show ?thesis by (simp add: has_finite_token_pose_def)
  qed
  then have "filter (has_finite_token_pose entries) (map fst entries) = []"
    by (simp add: filter_empty_conv)
  with frs' same have "frs = []" by simp
  with run wr show "\<exists>w'. prepare_test_scene e scene path path_meta verbose w = (Inr (), w') \<and>
            written w' (info_file path_meta scene) =
              Some \<lparr>d_dataset = ''sample'', d_path = path, d_scene = scene, d_frames = []\<rparr>"
    by simp
qed

text \<open>The example scene \<^verbatim>\<open>n\<close>: one frame in each layout, its pose with a NaN.\<close>

theorem no_finite_pose_empty_manifest_witness:
  "np_loadtxt example_env (intrinsics_file ''data'' ''n'') = Inr (Arr2 I3) \<and>
   fs_dirs example_env (color_dir ''data'' ''n'') = Some [''00000000.jpg''] \<and>
   those (map frame_id_of [''00000000.jpg'']) = Some [0] \<and>
   np_loadtxt example_env (pose_file ''data'' ''n'' 0) = Inr (Arr2 (shift NaN)) \<and>
   fs_files example_env (pose_file_B ''data'' ''n'') = Some n_pose_txt \<and>
   map (pose_line example_env) (readlines n_pose_txt)
     = map Inr [(''f1'', Arr2 I3, Arr2 (shift NaN))] \<and>
   all_isfinite (Arr2 (shift NaN)) = False \<and>
   (\<exists>w'. prepare_sample_scene example_env ''n'' ''data'' ''meta'' 2 w0 = (Inr (), w') \<and>
         written w' ''meta/n/info.json'' =
           Some \<lparr>d_dataset = ''sample'', d_path = ''data'', d_scene = ''n'', d_frames = []\<rparr>) \<and>
   (\<exists>w'. prepare_test_scene example_env ''n'' ''data'' ''meta'' 2 w0 = (Inr (), w') \<and>
         written w' ''meta/n/info.json'' =
           Some \<lparr>d_dataset = ''sample'', d_path = ''data'', d_scene = ''n'', d_frames = []\<rparr>)"
proof -
  have intr: "np_loadtxt example_env (intrinsics_file ''data'' ''n'') = Inr (Arr2 I3)"
    by (simp add: example_simps)
  have dir: "fs_dirs example_env (color_dir ''data'' ''n'') = Some [''00000000.jpg'']"
    by (simp add: example_simps)
  have ids: "those (map frame_id_of [''00000000.jpg'']) = Some [0]"
    by (simp add: example_frame_ids)
  have pose: "np_loadtxt example_env (pose_file ''data'' ''n'' 0) = Inr (Arr2 (shift NaN))"
    by (simp add: example_simps)
  have nan: "all_isfinite (Arr2 (shift NaN)) = False"
    by (simp add: shift_def)
  have src: "fs_files example_env (pose_file_B ''data'' ''n'') = Some n_pose_txt"
    by (simp add: example_simps)
  have en: "map (pose_line example_env) (readlines n_pose_txt)
     = map Inr [(''f1'', Arr2 I3, Arr2 (shift NaN))]"
    by (simp add: pose_line_def n_pose_txt_def strip_nl_def strip_chars_def slice_def
        np_array_reshape_def example_simps)
  have mk: "can_makedirs example_env (os_path_join ''meta'' [''n''])"
    and op: "can_open_w example_env (info_file ''meta'' ''n'')"
    by (simp_all add: example_env_def)
  have badA: "\<forall>frame_id \<in> set [0]. \<exists>pose.
       np_loadtxt example_env (pose_file ''data'' ''n'' frame_id) = Inr pose \<and> \<not> all_isfinite pose"
    using pose nan by simp
  have badB: "\<forall>en \<in> set [(''f1'', Arr2 I3, Arr2 (shift NaN))]. \<not> all_isfinite (snd (snd en))"
    using nan by simp
  note inst = no_finite_pose_empty_manifest [of example_env "''data''" "''n''" "Arr2 I3"
      "[''00000000.jpg'']" "[0]" "''meta''" 2 w0 n_pose_txt "[(''f1'', Arr2 I3, Arr2 (shift NaN))]"]
  have A: "\<exists>w'. prepare_sample_scene example_env ''n'' ''data'' ''meta'' 2 w0 = (Inr (), w') \<and>
         written w' (info_file ''meta'' ''n'') =
           Some \<lparr>d_dataset = ''sample'', d_path = ''data'', d_scene = ''n'', d_frames = []\<rparr>"
    using inst [THEN conjunct1] intr dir ids badA mk op by blast
  have B: "\<exists>w'. prepare_test_scene example_env ''n'' ''data'' ''meta'' 2 w0 = (Inr (), w') \<and>
         written w' (info_file ''meta'' ''n'') =
           Some \<lparr>d_dataset = ''sample'', d_path = ''data'', d_scene = ''n'', d_frames = []\<rparr>"
    using inst [THEN conjunct2] src en badB mk op by blast
  have p: "info_file ''meta'' ''n'' = ''meta/n/info.json''"
    by (simp add: os_path_join_def join_step_def)
  from intr dir ids pose src en nan A B show ?thesis
    unfolding p by blast
qed





end
